theory Spec2Isabelle
  imports
    Complex_Main
    "HOL-Library.Word"
    "HOL-Library.Char_ord"
    "HOL-Library.List_Lexorder"
    "HOL-Library.Signed_Division"
begin

section \<open>Exceptions\<close>

text \<open>
  The exception classes raised by the code under study. An operation that can raise
  returns a sum whose left injection carries the class of the exception; the message text
  is not modelled.
\<close>

datatype error =
    BadValue
  | NotImplemented
  | DuplicateDurationKey
  | InvalidOperation
  | TypeError

section \<open>Durations and timestamps\<close>

text \<open>
  \<open>Duration\<close> is \<open>boost::posix_time::time_duration\<close>: a tick count (microseconds) or one
  of the special values. \<open>DurationDataInterval\<close>'s constructor uses \<open>pos_infin\<close> and
  \<open>neg_infin\<close>, so they are part of the model. The tick count is an unbounded \<open>int\<close>
  (64 bits in the library; no property below depends on overflow).
  A \<open>Timestamp\<close> is a point in time in microseconds, as \<open>PktEvent::now()\<close> yields it.
\<close>

datatype Duration = NotADateTime | NegInfin | Ticks int | PosInfin

type_synonym Timestamp = int

definition ZERO_DURATION :: Duration where
  "ZERO_DURATION = Ticks 0"

text \<open>\<open>a < b\<close> on durations; a comparison with not-a-date-time is never true.\<close>

fun dur_less :: "Duration \<Rightarrow> Duration \<Rightarrow> bool" where
  "dur_less NotADateTime b = False"
| "dur_less a NotADateTime = False"
| "dur_less NegInfin b = (b \<noteq> NegInfin)"
| "dur_less a PosInfin = (a \<noteq> PosInfin)"
| "dur_less PosInfin b = False"
| "dur_less a NegInfin = False"
| "dur_less (Ticks x) (Ticks y) = (x < y)"

text \<open>\<open>a <= b\<close> is derived from \<open><\<close> as \<open>!(b < a)\<close>.\<close>

definition dur_le :: "Duration \<Rightarrow> Duration \<Rightarrow> bool" where
  "dur_le a b = (\<not> dur_less b a)"

text \<open>\<open>a + b\<close> on durations.\<close>

fun dur_add :: "Duration \<Rightarrow> Duration \<Rightarrow> Duration" where
  "dur_add NotADateTime b = NotADateTime"
| "dur_add a NotADateTime = NotADateTime"
| "dur_add PosInfin NegInfin = NotADateTime"
| "dur_add NegInfin PosInfin = NotADateTime"
| "dur_add PosInfin b = PosInfin"
| "dur_add NegInfin b = NegInfin"
| "dur_add a PosInfin = PosInfin"
| "dur_add a NegInfin = NegInfin"
| "dur_add (Ticks x) (Ticks y) = Ticks (x + y)"

text \<open>
  \<open>d / n\<close> for a count \<open>n\<close>. The tick count is divided as C++ divides integers, truncating
  towards zero. Dividing by zero is an arithmetic fault of the program: \<open>None\<close>.
\<close>

fun dur_div :: "Duration \<Rightarrow> nat \<Rightarrow> Duration option" where
  "dur_div d 0 = None"
| "dur_div (Ticks t) n = Some (Ticks (t sdiv int n))"
| "dur_div d n = Some d"

text \<open>The difference of two timestamps.\<close>

definition ts_diff :: "Timestamp \<Rightarrow> Timestamp \<Rightarrow> Duration" where
  "ts_diff a b = Ticks (a - b)"

section \<open>DurationDataInterval\<close>

record DurationDataInterval =
  start_time :: Timestamp
  occurrences :: nat
  min_duration :: Duration
  max_duration :: Duration
  total_duration :: Duration

definition DurationDataInterval_new :: "Timestamp \<Rightarrow> DurationDataInterval" where
  "DurationDataInterval_new start =
     \<lparr> start_time = start, occurrences = 0,
       min_duration = PosInfin, max_duration = NegInfin,
       total_duration = Ticks 0 \<rparr>"

definition DurationDataInterval_addDuration ::
  "DurationDataInterval \<Rightarrow> Duration \<Rightarrow> DurationDataInterval" where
  "DurationDataInterval_addDuration iv duration =
     (let iv1 = iv\<lparr>occurrences := occurrences iv + 1\<rparr>;
          iv2 = (if dur_less duration (min_duration iv1)
                 then iv1\<lparr>min_duration := duration\<rparr> else iv1);
          iv3 = (if dur_less (max_duration iv2) duration
                 then iv2\<lparr>max_duration := duration\<rparr> else iv2)
      in iv3\<lparr>total_duration := dur_add (total_duration iv3) duration\<rparr>)"

definition DurationDataInterval_getAverageDuration ::
  "DurationDataInterval \<Rightarrow> Duration option" where
  "DurationDataInterval_getAverageDuration iv =
     (if occurrences iv = 0 then Some ZERO_DURATION
      else dur_div (total_duration iv) (occurrences iv))"

section \<open>DurationKey\<close>

text \<open>
  Modelled from the spec: the address families and the DHCP message type codes come from
  system and protocol headers that are not among the sources. The specification names
  the protocols, RFC 2131 and RFC 8415, whose message type codes these are; the address
  families have the values of the socket API on Linux.
\<close>

definition AF_INET :: "16 word" where "AF_INET = 2"
definition AF_INET6 :: "16 word" where "AF_INET6 = 10"

definition DHCP_NOTYPE :: "8 word" where "DHCP_NOTYPE = 0"
definition DHCPDISCOVER :: "8 word" where "DHCPDISCOVER = 1"
definition DHCPOFFER :: "8 word" where "DHCPOFFER = 2"
definition DHCPREQUEST :: "8 word" where "DHCPREQUEST = 3"
definition DHCPACK :: "8 word" where "DHCPACK = 5"
definition DHCPNAK :: "8 word" where "DHCPNAK = 6"
definition DHCPINFORM :: "8 word" where "DHCPINFORM = 8"

definition DHCPV6_NOTYPE :: "8 word" where "DHCPV6_NOTYPE = 0"
definition DHCPV6_SOLICIT :: "8 word" where "DHCPV6_SOLICIT = 1"
definition DHCPV6_ADVERTISE :: "8 word" where "DHCPV6_ADVERTISE = 2"
definition DHCPV6_REQUEST :: "8 word" where "DHCPV6_REQUEST = 3"
definition DHCPV6_CONFIRM :: "8 word" where "DHCPV6_CONFIRM = 4"
definition DHCPV6_RENEW :: "8 word" where "DHCPV6_RENEW = 5"
definition DHCPV6_REBIND :: "8 word" where "DHCPV6_REBIND = 6"
definition DHCPV6_REPLY :: "8 word" where "DHCPV6_REPLY = 7"

record DurationKey =
  family :: "16 word"
  query_type :: "8 word"
  response_type :: "8 word"
  start_event_label :: string
  end_event_label :: string
  subnet_id :: "32 word"

text \<open>
  \<open>validateMessagePair\<close>: each \<open>switch\<close> is a chain of tests on the query type in the
  order of its \<open>case\<close> labels; a \<open>break\<close> and the \<open>default\<close> label both end in a
  \<open>BadValue\<close>.
\<close>

definition validateMessagePair :: "16 word \<Rightarrow> 8 word \<Rightarrow> 8 word \<Rightarrow> error + unit" where
  "validateMessagePair fam qt rt =
     (if fam = AF_INET then
        (if qt = DHCP_NOTYPE then
           (if rt = DHCP_NOTYPE \<or> rt = DHCPOFFER \<or> rt = DHCPACK \<or> rt = DHCPNAK
            then Inr () else Inl BadValue)
         else if qt = DHCPDISCOVER then
           (if rt = DHCP_NOTYPE \<or> rt = DHCPOFFER \<or> rt = DHCPNAK
            then Inr () else Inl BadValue)
         else if qt = DHCPREQUEST then
           (if rt = DHCP_NOTYPE \<or> rt = DHCPACK \<or> rt = DHCPNAK
            then Inr () else Inl BadValue)
         else if qt = DHCPINFORM then
           (if rt = DHCP_NOTYPE \<or> rt = DHCPACK
            then Inr () else Inl BadValue)
         else Inl BadValue)
      else
        (if qt = DHCPV6_NOTYPE \<or> qt = DHCPV6_SOLICIT then
           (if rt = DHCPV6_NOTYPE \<or> rt = DHCPV6_ADVERTISE \<or> rt = DHCPV6_REPLY
            then Inr () else Inl BadValue)
         else if qt = DHCPV6_REQUEST \<or> qt = DHCPV6_RENEW \<or> qt = DHCPV6_REBIND
                 \<or> qt = DHCPV6_CONFIRM then
           (if rt = DHCPV6_NOTYPE \<or> rt = DHCPV6_REPLY
            then Inr () else Inl BadValue)
         else Inl BadValue))"

text \<open>The constructor: the result is the key, or the exception and no object.\<close>

definition DurationKey_new ::
  "16 word \<Rightarrow> 8 word \<Rightarrow> 8 word \<Rightarrow> string \<Rightarrow> string \<Rightarrow> 32 word \<Rightarrow> error + DurationKey" where
  "DurationKey_new fam qt rt start_label end_label sid =
     (if fam \<noteq> AF_INET \<and> fam \<noteq> AF_INET6 then Inl BadValue
      else case validateMessagePair fam qt rt of
             Inl e \<Rightarrow> Inl e
           | Inr u \<Rightarrow> Inr \<lparr> family = fam, query_type = qt, response_type = rt,
                           start_event_label = start_label, end_event_label = end_label,
                           subnet_id = sid \<rparr>)"

text \<open>
  \<open>operator==\<close> and \<open>operator<\<close>. Both take their argument by reference to
  \<open>DurationKey\<close>, so they also compare the key parts of objects of the derived class.
  Strings compare bytewise in dictionary order.
\<close>

definition DurationKey_eq :: "'a DurationKey_scheme \<Rightarrow> 'b DurationKey_scheme \<Rightarrow> bool" where
  "DurationKey_eq a other =
     (family a = family other \<and>
      query_type a = query_type other \<and>
      response_type a = response_type other \<and>
      start_event_label a = start_event_label other \<and>
      end_event_label a = end_event_label other \<and>
      subnet_id a = subnet_id other)"

definition DurationKey_less :: "'a DurationKey_scheme \<Rightarrow> 'b DurationKey_scheme \<Rightarrow> bool" where
  "DurationKey_less a other =
     (family a < family other \<or>
      query_type a < query_type other \<or>
      response_type a < response_type other \<or>
      start_event_label a < start_event_label other \<or>
      end_event_label a < end_event_label other \<or>
      subnet_id a < subnet_id other)"

text \<open>
  The ordering the specification describes: the lexicographic strict order over the
  tuple (family, query-type, response-type, start-event-label, end-event-label,
  subnet-id), decided at the first component where the two keys differ.
\<close>

definition DurationKey_lex_less :: "DurationKey \<Rightarrow> DurationKey \<Rightarrow> bool" where
  "DurationKey_lex_less a b =
     (family a < family b \<or> (family a = family b \<and>
      (query_type a < query_type b \<or> (query_type a = query_type b \<and>
      (response_type a < response_type b \<or> (response_type a = response_type b \<and>
      (start_event_label a < start_event_label b \<or>
         (start_event_label a = start_event_label b \<and>
      (end_event_label a < end_event_label b \<or>
         (end_event_label a = end_event_label b \<and>
       subnet_id a < subnet_id b))))))))))"

text \<open>
  The validated combinations of family, query type and response type, as a table.
\<close>

definition validated_combinations :: "(16 word \<times> 8 word \<times> 8 word) list" where
  "validated_combinations =
     [(AF_INET, DHCP_NOTYPE, DHCP_NOTYPE), (AF_INET, DHCP_NOTYPE, DHCPOFFER),
      (AF_INET, DHCP_NOTYPE, DHCPACK), (AF_INET, DHCP_NOTYPE, DHCPNAK),
      (AF_INET, DHCPDISCOVER, DHCP_NOTYPE), (AF_INET, DHCPDISCOVER, DHCPOFFER),
      (AF_INET, DHCPDISCOVER, DHCPNAK),
      (AF_INET, DHCPREQUEST, DHCP_NOTYPE), (AF_INET, DHCPREQUEST, DHCPACK),
      (AF_INET, DHCPREQUEST, DHCPNAK),
      (AF_INET, DHCPINFORM, DHCP_NOTYPE), (AF_INET, DHCPINFORM, DHCPACK),
      (AF_INET6, DHCPV6_NOTYPE, DHCPV6_NOTYPE), (AF_INET6, DHCPV6_NOTYPE, DHCPV6_ADVERTISE),
      (AF_INET6, DHCPV6_NOTYPE, DHCPV6_REPLY),
      (AF_INET6, DHCPV6_SOLICIT, DHCPV6_NOTYPE), (AF_INET6, DHCPV6_SOLICIT, DHCPV6_ADVERTISE),
      (AF_INET6, DHCPV6_SOLICIT, DHCPV6_REPLY),
      (AF_INET6, DHCPV6_REQUEST, DHCPV6_NOTYPE), (AF_INET6, DHCPV6_REQUEST, DHCPV6_REPLY),
      (AF_INET6, DHCPV6_RENEW, DHCPV6_NOTYPE), (AF_INET6, DHCPV6_RENEW, DHCPV6_REPLY),
      (AF_INET6, DHCPV6_REBIND, DHCPV6_NOTYPE), (AF_INET6, DHCPV6_REBIND, DHCPV6_REPLY),
      (AF_INET6, DHCPV6_CONFIRM, DHCPV6_NOTYPE), (AF_INET6, DHCPV6_CONFIRM, DHCPV6_REPLY)]"

definition key_validated :: "'a DurationKey_scheme \<Rightarrow> bool" where
  "key_validated k =
     ((family k, query_type k, response_type k) \<in> set validated_combinations)"

section \<open>MonitoredDuration\<close>

text \<open>
  The two intervals of a \<open>MonitoredDuration\<close> are shared pointers to
  \<open>DurationDataInterval\<close> objects. The objects live in a heap; a pointer is an index into
  it and the null pointer is \<open>None\<close>. A new object is put at the end of the heap, so it
  never takes the place of one that exists. The heap a function gets is returned updated.
\<close>

type_synonym Heap = "DurationDataInterval list"

definition heap_new :: "DurationDataInterval \<Rightarrow> Heap \<Rightarrow> nat \<times> Heap" where
  "heap_new iv h = (length h, h @ [iv])"

definition heap_modify ::
  "nat \<Rightarrow> (DurationDataInterval \<Rightarrow> DurationDataInterval) \<Rightarrow> Heap \<Rightarrow> Heap" where
  "heap_modify p f h = h[p := f (h ! p)]"

record MonitoredDuration = DurationKey +
  interval_duration :: Duration
  current_interval :: "nat option"
  previous_interval :: "nat option"

definition MonitoredDuration_of_key :: "DurationKey \<Rightarrow> Duration \<Rightarrow> error + MonitoredDuration" where
  "MonitoredDuration_of_key k interval =
     (if dur_le interval ZERO_DURATION then Inl BadValue
      else Inr \<lparr> family = family k, query_type = query_type k,
                 response_type = response_type k,
                 start_event_label = start_event_label k,
                 end_event_label = end_event_label k, subnet_id = subnet_id k,
                 interval_duration = interval,
                 current_interval = None, previous_interval = None \<rparr>)"

definition MonitoredDuration_new ::
  "16 word \<Rightarrow> 8 word \<Rightarrow> 8 word \<Rightarrow> string \<Rightarrow> string \<Rightarrow> 32 word \<Rightarrow> Duration
     \<Rightarrow> error + MonitoredDuration" where
  "MonitoredDuration_new fam qt rt start_label end_label sid interval =
     (case DurationKey_new fam qt rt start_label end_label sid of
        Inl e \<Rightarrow> Inl e
      | Inr k \<Rightarrow> MonitoredDuration_of_key k interval)"

text \<open>
  \<open>monitored_duration.cc\<close> defines no copy constructor for \<open>MonitoredDuration\<close>, so
  \<open>new MonitoredDuration(*p)\<close> copies member by member: the copy holds the same two
  interval pointers as the original, not copies of the intervals.
\<close>

definition MonitoredDuration_copy :: "MonitoredDuration \<Rightarrow> MonitoredDuration" where
  "MonitoredDuration_copy rhs =
     \<lparr> family = family rhs, query_type = query_type rhs,
       response_type = response_type rhs,
       start_event_label = start_event_label rhs,
       end_event_label = end_event_label rhs, subnet_id = subnet_id rhs,
       interval_duration = interval_duration rhs,
       current_interval = current_interval rhs,
       previous_interval = previous_interval rhs \<rparr>"

text \<open>
  \<open>addSample\<close>: the reading of the clock is the argument \<open>now\<close>. The result is the
  report flag, the object after the call and the heap after the call.
\<close>

definition MonitoredDuration_addSample ::
  "MonitoredDuration \<Rightarrow> Duration \<Rightarrow> Timestamp \<Rightarrow> Heap \<Rightarrow> bool \<times> MonitoredDuration \<times> Heap" where
  "MonitoredDuration_addSample m sample now h =
     (case current_interval m of
        None \<Rightarrow>
          (let (p, h1) = heap_new (DurationDataInterval_new now) h;
               m1 = m\<lparr>current_interval := Some p\<rparr>
           in (False, m1,
               heap_modify p (\<lambda>iv. DurationDataInterval_addDuration iv sample) h1))
      | Some c \<Rightarrow>
          if dur_less (interval_duration m) (ts_diff now (start_time (h ! c))) then
            (let m1 = m\<lparr>previous_interval := current_interval m\<rparr>;
                 (p, h1) = heap_new (DurationDataInterval_new now) h;
                 m2 = m1\<lparr>current_interval := Some p\<rparr>
             in (True, m2,
                 heap_modify p (\<lambda>iv. DurationDataInterval_addDuration iv sample) h1))
          else
            (False, m,
             heap_modify c (\<lambda>iv. DurationDataInterval_addDuration iv sample) h))"

definition MonitoredDuration_clear :: "MonitoredDuration \<Rightarrow> MonitoredDuration" where
  "MonitoredDuration_clear m = m\<lparr>current_interval := None, previous_interval := None\<rparr>"

section \<open>The ordered index of the store\<close>

text \<open>
  Modelled from the spec: the declaration of the container \<open>durations_\<close>
  (\<open>monitored_duration_store.h\<close>) is not among the sources. The specification describes
  it as a set of \<open>MonitoredDuration\<close> records indexed by \<open>DurationKey\<close>.
  \<open>monitored_duration_store.cc\<close> uses it through its index \<open>DurationKeyTag\<close>, with
  \<open>insert\<close>, \<open>find\<close>, \<open>replace\<close>, \<open>erase\<close> and iteration, and looks records up there
  by a \<open>DurationKey\<close>: an ordered unique index of a boost multi-index container on the
  key of the record, ordered by \<open>operator<\<close> of \<open>DurationKey\<close>. Such an index is a
  red-black tree of the records. Its operations are modelled as the library performs
  them on the tree, because \<open>operator<\<close> is not a strict order and what they return then
  depends on the shape of the tree.
\<close>

datatype ordered_index_color = red | black

datatype ordered_index_side = to_left | to_right

datatype 'a rb_tree = Null | Node ordered_index_color "'a rb_tree" 'a "'a rb_tree"

text \<open>Iteration over the index visits the records from the leftmost to the rightmost.\<close>

fun inorder :: "'a rb_tree \<Rightarrow> 'a list" where
  "inorder Null = []"
| "inorder (Node c l v r) = inorder l @ v # inorder r"

text \<open>The colour of a node; the null pointer counts as black.\<close>

fun color_of :: "'a rb_tree \<Rightarrow> ordered_index_color" where
  "color_of Null = black"
| "color_of (Node c l v r) = c"

fun set_color :: "ordered_index_color \<Rightarrow> 'a rb_tree \<Rightarrow> 'a rb_tree" where
  "set_color c Null = Null"
| "set_color c (Node c0 l v r) = Node c l v r"

text \<open>
  A place in the tree is the subtree at that place together with the way up from it to
  the root: for each ancestor, nearest first, the side on which the place lies, the
  ancestor's colour and record, and the ancestor's other subtree. The library follows
  parent pointers; the way up stands for them. An iterator is the place of a node, and
  the place of a null pointer is where a new node can be linked.
\<close>

type_synonym 'a path = "(ordered_index_side \<times> ordered_index_color \<times> 'a \<times> 'a rb_tree) list"

type_synonym 'a place = "'a path \<times> 'a rb_tree"

fun node_on ::
  "ordered_index_side \<Rightarrow> ordered_index_color \<Rightarrow> 'a rb_tree \<Rightarrow> 'a \<Rightarrow> 'a rb_tree \<Rightarrow> 'a rb_tree" where
  "node_on to_left c t v other = Node c t v other"
| "node_on to_right c t v other = Node c other v t"

fun plug :: "'a rb_tree \<Rightarrow> 'a path \<Rightarrow> 'a rb_tree" where
  "plug t [] = t"
| "plug t ((s, c, v, other) # p) = plug (node_on s c t v other) p"

text \<open>
  \<open>rebalance\<close> after a node \<open>x\<close> was linked: \<open>x\<close> is red; while its parent is red, either
  the uncle is red too, then parent and uncle become black, the grandparent red and the
  loop goes on from the grandparent, or one or two rotations end the loop. At the end
  the root is black. The root of a tree of the index is black, so a red parent has a
  parent of its own.
\<close>

fun rotate_up ::
  "ordered_index_side \<Rightarrow> ordered_index_side \<Rightarrow> 'a rb_tree \<Rightarrow> ordered_index_color \<Rightarrow> 'a
     \<Rightarrow> 'a rb_tree \<Rightarrow> ordered_index_color \<Rightarrow> 'a \<Rightarrow> 'a rb_tree \<Rightarrow> 'a rb_tree" where
  "rotate_up to_left to_left x pc pv sib gc gv unc =
     Node black x pv (Node red sib gv unc)"
| "rotate_up to_right to_left (Node xc xl xv xr) pc pv sib gc gv unc =
     Node black (Node red sib pv xl) xv (Node red xr gv unc)"
| "rotate_up to_right to_right x pc pv sib gc gv unc =
     Node black (Node red unc gv sib) pv x"
| "rotate_up to_left to_right (Node xc xl xv xr) pc pv sib gc gv unc =
     Node black (Node red unc gv xl) xv (Node red xr pv sib)"
| "rotate_up s gs Null pc pv sib gc gv unc =
     node_on gs gc (node_on s pc Null pv sib) gv unc"

fun rebalance :: "'a rb_tree \<Rightarrow> 'a path \<Rightarrow> 'a rb_tree" where
  "rebalance x [] = set_color black x"
| "rebalance x [f] = set_color black (plug x [f])"
| "rebalance x ((s, pc, pv, sib) # (gs, gc, gv, unc) # rest) =
     (if pc \<noteq> red then
        set_color black (plug x ((s, pc, pv, sib) # (gs, gc, gv, unc) # rest))
      else if color_of unc = red then
        rebalance (node_on gs red (node_on s black x pv sib) gv (set_color black unc)) rest
      else
        set_color black (plug (rotate_up s gs x pc pv sib gc gv unc) rest))"

text \<open>\<open>link\<close>: a new node with the record is put at the place of a null pointer.\<close>

definition link :: "'a \<Rightarrow> 'a path \<Rightarrow> 'a rb_tree" where
  "link v p = rebalance (Node red Null v Null) p"

text \<open>
  \<open>link_point\<close> for a unique index: the way down from the root goes left where the new
  key is less than the key of the node, and right otherwise, to a null pointer. The
  record before that place in the order of iteration, if there is one, must be less than
  the new key; otherwise the key counts as present and nothing is inserted.
\<close>

fun descend :: "('a \<Rightarrow> bool) \<Rightarrow> 'a rb_tree \<Rightarrow> 'a path \<Rightarrow> 'a path" where
  "descend goes_left Null p = p"
| "descend goes_left (Node c l v r) p =
     (if goes_left v then descend goes_left l ((to_left, c, v, r) # p)
      else descend goes_left r ((to_right, c, v, l) # p))"

fun place_predecessor :: "'a path \<Rightarrow> 'a option" where
  "place_predecessor [] = None"
| "place_predecessor ((to_right, c, v, l) # p) = Some v"
| "place_predecessor ((to_left, c, v, r) # p) = place_predecessor p"

fun place_successor :: "'a path \<Rightarrow> 'a option" where
  "place_successor [] = None"
| "place_successor ((to_left, c, v, r) # p) = Some v"
| "place_successor ((to_right, c, v, l) # p) = place_successor p"

definition link_point ::
  "MonitoredDuration \<Rightarrow> MonitoredDuration rb_tree \<Rightarrow> MonitoredDuration path option" where
  "link_point k t =
     (let p = descend (\<lambda>v. DurationKey_less k v) t []
      in case place_predecessor p of
           None \<Rightarrow> Some p
         | Some yy \<Rightarrow> if DurationKey_less yy k then Some p else None)"

text \<open>\<open>insert\<close>: the tree after the call, and whether the record was inserted.\<close>

definition index_insert ::
  "MonitoredDuration \<Rightarrow> MonitoredDuration rb_tree \<Rightarrow> MonitoredDuration rb_tree \<times> bool" where
  "index_insert v t =
     (case link_point v t of
        Some p \<Rightarrow> (link v p, True)
      | None \<Rightarrow> (t, False))"

text \<open>
  \<open>find\<close>: the way down from the root goes left, remembering the node, where the key of
  the node is not less than the key looked for, and right otherwise. The node remembered
  last is the result unless the key looked for is less than its key; \<open>None\<close> is the end
  iterator.
\<close>

fun find_descend ::
  "('a \<Rightarrow> bool) \<Rightarrow> 'a rb_tree \<Rightarrow> 'a path \<Rightarrow> 'a place option \<Rightarrow> 'a place option" where
  "find_descend less_x Null p y = y"
| "find_descend less_x (Node c l v r) p y =
     (if \<not> less_x v then find_descend less_x l ((to_left, c, v, r) # p) (Some (p, Node c l v r))
      else find_descend less_x r ((to_right, c, v, l) # p) y)"

definition index_find ::
  "'k DurationKey_scheme \<Rightarrow> MonitoredDuration rb_tree \<Rightarrow> MonitoredDuration place option" where
  "index_find x t =
     (case find_descend (\<lambda>v. DurationKey_less v x) t [] None of
        None \<Rightarrow> None
      | Some (p, Null) \<Rightarrow> None
      | Some (p, Node c l v r) \<Rightarrow>
          if DurationKey_less x v then None else Some (p, Node c l v r))"

text \<open>The record an iterator points to.\<close>

fun place_value :: "'a place \<Rightarrow> 'a option" where
  "place_value (p, Null) = None"
| "place_value (p, Node c l v r) = Some v"

text \<open>
  \<open>rebalance_for_extract\<close> takes a node out of the tree. A node with at most one child is
  replaced by that child. A node with two children is replaced by its successor, the
  leftmost node of its right subtree, which takes its colour, and the successor by its
  right child. When the colour that left the tree is black, the tree is repaired from
  the place of the child that moved up: while that place is not the root and holds a
  black node or none, its sibling decides. A red sibling is rotated above the parent
  first. A sibling with two black children becomes red and the loop goes on from the
  parent; otherwise one or two rotations end the loop. At the end the node at the place
  reached is black. In a red-black tree the sibling of such a place is a node.
\<close>

fun fix_sibling ::
  "ordered_index_side \<Rightarrow> 'a rb_tree \<Rightarrow> ordered_index_color \<Rightarrow> 'a \<Rightarrow> 'a rb_tree
     \<Rightarrow> 'a rb_tree \<times> bool" where
  "fix_sibling s x pc pv Null = (node_on s pc x pv Null, False)"
| "fix_sibling to_left x pc pv (Node wc wl wv wr) =
     (if color_of wl \<noteq> red \<and> color_of wr \<noteq> red then
        (Node pc x pv (Node red wl wv wr), True)
      else
        (case (if color_of wr \<noteq> red
               then (case wl of
                       Node wlc wll wlv wlr \<Rightarrow> Node black wll wlv (Node red wlr wv wr)
                     | Null \<Rightarrow> Node wc wl wv wr)
               else Node wc wl wv wr) of
           Node c2 l2 v2 r2 \<Rightarrow> (Node pc (Node black x pv l2) v2 (set_color black r2), False)
         | Null \<Rightarrow> (Node pc x pv (Node wc wl wv wr), False)))"
| "fix_sibling to_right x pc pv (Node wc wl wv wr) =
     (if color_of wr \<noteq> red \<and> color_of wl \<noteq> red then
        (Node pc (Node red wl wv wr) pv x, True)
      else
        (case (if color_of wl \<noteq> red
               then (case wr of
                       Node wrc wrl wrv wrr \<Rightarrow> Node black (Node red wl wv wrl) wrv wrr
                     | Null \<Rightarrow> Node wc wl wv wr)
               else Node wc wl wv wr) of
           Node c2 l2 v2 r2 \<Rightarrow> (Node pc (set_color black l2) v2 (Node black r2 pv x), False)
         | Null \<Rightarrow> (Node pc (Node wc wl wv wr) pv x, False)))"

fun erase_fixup :: "'a rb_tree \<Rightarrow> 'a path \<Rightarrow> 'a rb_tree" where
  "erase_fixup x [] = set_color black x"
| "erase_fixup x ((s, pc, pv, w) # rest) =
     (if color_of x = red then plug (set_color black x) ((s, pc, pv, w) # rest)
      else
        (case w of
           Node red wl wv wr \<Rightarrow>
             (let (sub, go_on) = fix_sibling s x red pv (if s = to_left then wl else wr)
              in plug (if go_on then set_color black sub else sub)
                   ((s, black, wv, if s = to_left then wr else wl) # rest))
         | _ \<Rightarrow>
             (let (sub, go_on) = fix_sibling s x pc pv w
              in if go_on then erase_fixup sub rest else plug sub rest)))"

fun leftmost_place :: "'a rb_tree \<Rightarrow> 'a path \<Rightarrow> 'a place" where
  "leftmost_place Null p = (p, Null)"
| "leftmost_place (Node c Null v r) p = (p, Node c Null v r)"
| "leftmost_place (Node c (Node lc ll lv lr) v r) p =
     leftmost_place (Node lc ll lv lr) ((to_left, c, v, r) # p)"

definition after_extract ::
  "ordered_index_color \<Rightarrow> 'a rb_tree \<Rightarrow> 'a path \<Rightarrow> 'a rb_tree" where
  "after_extract removed x p = (if removed \<noteq> red then erase_fixup x p else plug x p)"

fun rebalance_for_extract :: "'a place \<Rightarrow> 'a rb_tree" where
  "rebalance_for_extract (p, Null) = plug Null p"
| "rebalance_for_extract (p, Node zc Null zv zr) = after_extract zc zr p"
| "rebalance_for_extract (p, Node zc zl zv Null) = after_extract zc zl p"
| "rebalance_for_extract (p, Node zc zl zv zr) =
     (case leftmost_place zr [] of
        (q, Node yc yl yv yr) \<Rightarrow> after_extract yc yr (q @ (to_right, zc, yv, zl) # p)
      | (q, Null) \<Rightarrow> plug (Node zc zl zv zr) p)"

text \<open>\<open>erase\<close> at an iterator.\<close>

definition index_erase :: "'a place \<Rightarrow> 'a rb_tree" where
  "index_erase pos = rebalance_for_extract pos"

text \<open>
  \<open>replace\<close> at an iterator. The new record stays in the node when it is in place: the
  record before the node, if there is one, is less than it, and it is less than the
  record after the node, if there is one. Otherwise the node is taken out and linked
  where \<open>link_point\<close> puts the new record; when \<open>link_point\<close> finds the key present, the
  node goes back with its old record, before the record that followed it.
\<close>

fun rightmost_value :: "'a rb_tree \<Rightarrow> 'a option" where
  "rightmost_value Null = None"
| "rightmost_value (Node c l v Null) = Some v"
| "rightmost_value (Node c l v r) = rightmost_value r"

fun leftmost_value :: "'a rb_tree \<Rightarrow> 'a option" where
  "leftmost_value Null = None"
| "leftmost_value (Node c Null v r) = Some v"
| "leftmost_value (Node c l v r) = leftmost_value l"

fun node_predecessor :: "'a place \<Rightarrow> 'a option" where
  "node_predecessor (p, Node c Null v r) = place_predecessor p"
| "node_predecessor (p, Node c l v r) = rightmost_value l"
| "node_predecessor (p, Null) = place_predecessor p"

fun node_successor :: "'a place \<Rightarrow> 'a option" where
  "node_successor (p, Node c l v Null) = place_successor p"
| "node_successor (p, Node c l v r) = leftmost_value r"
| "node_successor (p, Null) = place_successor p"

definition in_place :: "MonitoredDuration \<Rightarrow> MonitoredDuration place \<Rightarrow> bool" where
  "in_place v pos =
     ((case node_predecessor pos of None \<Rightarrow> True | Some y \<Rightarrow> DurationKey_less y v)
      \<and> (case node_successor pos of None \<Rightarrow> True | Some y \<Rightarrow> DurationKey_less v y))"

text \<open>The records before a place, in the order of iteration.\<close>

fun before :: "'a path \<Rightarrow> 'a list" where
  "before [] = []"
| "before ((to_left, c, v, r) # p) = before p"
| "before ((to_right, c, v, l) # p) = before p @ inorder l @ [v]"

text \<open>The records after a place, in the order of iteration.\<close>

fun after :: "'a path \<Rightarrow> 'a list" where
  "after [] = []"
| "after ((to_left, c, v, r) # p) = v # inorder r @ after p"
| "after ((to_right, c, v, l) # p) = after p"

text \<open>
  The place of the null pointer between the first \<open>i\<close> records and the others: the left
  link of the record that follows, when it has no left child, and the right link of the
  record before otherwise.
\<close>

fun gap_place :: "nat \<Rightarrow> 'a rb_tree \<Rightarrow> 'a path \<Rightarrow> 'a path" where
  "gap_place i Null p = p"
| "gap_place i (Node c l v r) p =
     (if i \<le> length (inorder l) then gap_place i l ((to_left, c, v, r) # p)
      else gap_place (i - length (inorder l) - 1) r ((to_right, c, v, l) # p))"

fun index_replace :: "MonitoredDuration \<Rightarrow> MonitoredDuration place \<Rightarrow> MonitoredDuration rb_tree" where
  "index_replace v (p, Null) = plug Null p"
| "index_replace v (p, Node c l old r) =
     (if in_place v (p, Node c l old r) then plug (Node c l v r) p
      else
        (let t1 = rebalance_for_extract (p, Node c l old r)
         in case link_point v t1 of
              Some q \<Rightarrow> link v q
            | None \<Rightarrow> link old (gap_place (length (before p @ inorder l)) t1 [])))"

section \<open>MonitoredDurationStore\<close>

text \<open>The store holds its family, its interval length and the index. The mutex is not modelled.\<close>

record MonitoredDurationStore =
  store_family :: "16 word"
  store_interval_duration :: Duration
  durations :: "MonitoredDuration rb_tree"

definition MonitoredDurationStore_new :: "16 word \<Rightarrow> Duration \<Rightarrow> error + MonitoredDurationStore" where
  "MonitoredDurationStore_new fam interval =
     (if dur_le interval ZERO_DURATION then Inl BadValue
      else Inr \<lparr> store_family = fam, store_interval_duration = interval, durations = Null \<rparr>)"

text \<open>
  \<open>addDuration\<close>: a null key pointer is \<open>None\<close>. Any exception while the new object is
  built is raised again as \<open>BadValue\<close>. When the insertion fails, the new object and the
  interval made for it are released with it: the heap is the one before the call.
\<close>

definition MonitoredDurationStore_addDuration ::
  "DurationKey option \<Rightarrow> Duration \<Rightarrow> Timestamp \<Rightarrow> MonitoredDurationStore \<Rightarrow> Heap
     \<Rightarrow> (error + MonitoredDuration) \<times> MonitoredDurationStore \<times> Heap" where
  "MonitoredDurationStore_addDuration key sample now st h =
     (case key of
        None \<Rightarrow> (Inl BadValue, st, h)
      | Some k \<Rightarrow>
          if family k \<noteq> store_family st then (Inl BadValue, st, h)
          else
            (case MonitoredDuration_of_key k (store_interval_duration st) of
               Inl e \<Rightarrow> (Inl BadValue, st, h)
             | Inr mond0 \<Rightarrow>
                 (let (mond, h1) =
                        (if dur_less ZERO_DURATION sample
                         then snd (MonitoredDuration_addSample mond0 sample now h)
                         else (mond0, h));
                      ret = index_insert mond (durations st)
                  in if snd ret = False
                     then (Inl DuplicateDurationKey, st, h)
                     else (Inr (MonitoredDuration_copy mond),
                           st\<lparr>durations := fst ret\<rparr>, h1))))"

definition MonitoredDurationStore_getDuration ::
  "DurationKey option \<Rightarrow> MonitoredDurationStore \<Rightarrow> error + MonitoredDuration option" where
  "MonitoredDurationStore_getDuration key st =
     (case key of
        None \<Rightarrow> Inl BadValue
      | Some k \<Rightarrow>
          (case index_find k (durations st) of
             None \<Rightarrow> Inr None
           | Some duration_iter \<Rightarrow>
               Inr (map_option MonitoredDuration_copy (place_value duration_iter))))"

definition MonitoredDurationStore_updateDuration ::
  "MonitoredDuration option \<Rightarrow> MonitoredDurationStore
     \<Rightarrow> (error + unit) \<times> MonitoredDurationStore" where
  "MonitoredDurationStore_updateDuration duration st =
     (case duration of
        None \<Rightarrow> (Inl BadValue, st)
      | Some d \<Rightarrow>
          (case index_find d (durations st) of
             None \<Rightarrow> (Inl InvalidOperation, st)
           | Some duration_iter \<Rightarrow>
               (Inr (),
                st\<lparr>durations := index_replace (MonitoredDuration_copy d) duration_iter\<rparr>)))"

definition MonitoredDurationStore_deleteDuration ::
  "DurationKey option \<Rightarrow> MonitoredDurationStore
     \<Rightarrow> (error + unit) \<times> MonitoredDurationStore" where
  "MonitoredDurationStore_deleteDuration key st =
     (case key of
        None \<Rightarrow> (Inl BadValue, st)
      | Some k \<Rightarrow>
          (case index_find k (durations st) of
             None \<Rightarrow> (Inr (), st)
           | Some duration_iter \<Rightarrow>
               (Inr (), st\<lparr>durations := index_erase duration_iter\<rparr>)))"

definition MonitoredDurationStore_getAll :: "MonitoredDurationStore \<Rightarrow> MonitoredDuration list" where
  "MonitoredDurationStore_getAll st = map MonitoredDuration_copy (inorder (durations st))"

definition MonitoredDurationStore_clear ::
  "MonitoredDurationStore \<Rightarrow> (error + unit) \<times> MonitoredDurationStore" where
  "MonitoredDurationStore_clear st = (Inl NotImplemented, st)"

text \<open>
  What an observer of a record sees: its key, its interval length and the contents of
  its two intervals, read through the pointers.
\<close>

definition deref :: "Heap \<Rightarrow> nat option \<Rightarrow> DurationDataInterval option" where
  "deref h p = (case p of None \<Rightarrow> None | Some a \<Rightarrow> if a < length h then Some (h ! a) else None)"

definition record_contents ::
  "Heap \<Rightarrow> MonitoredDuration
     \<Rightarrow> DurationKey \<times> Duration \<times> DurationDataInterval option \<times> DurationDataInterval option" where
  "record_contents h m =
     (DurationKey.truncate m, interval_duration m,
      deref h (current_interval m), deref h (previous_interval m))"

definition store_contents ::
  "Heap \<Rightarrow> MonitoredDurationStore
     \<Rightarrow> (DurationKey \<times> Duration \<times> DurationDataInterval option \<times> DurationDataInterval option) list" where
  "store_contents h st = map (record_contents h) (inorder (durations st))"

text \<open>The interval pointers of a record point into the heap.\<close>

definition pointers_valid :: "Heap \<Rightarrow> MonitoredDuration \<Rightarrow> bool" where
  "pointers_valid h d =
     ((case current_interval d of None \<Rightarrow> True | Some a \<Rightarrow> a < length h)
      \<and> (case previous_interval d of None \<Rightarrow> True | Some a \<Rightarrow> a < length h))"

section \<open>Statistics manager\<close>

subsection \<open>Observation\<close>

text \<open>
  The data of an \<open>Observation\<close> as \<open>observation.h\<close> declares it: a name, a type and
  one list of samples for each type; a sample is a value with a timestamp. A \<open>double\<close>
  is carried as a real number; no arithmetic on it is modelled.
\<close>

datatype Type = STAT_INTEGER | STAT_FLOAT | STAT_DURATION | STAT_STRING

record Observation =
  obs_name :: string
  obs_type :: Type
  integer_samples :: "(64 word \<times> Timestamp) list"
  float_samples :: "(real \<times> Timestamp) list"
  duration_samples :: "(Duration \<times> Timestamp) list"
  string_samples :: "(string \<times> Timestamp) list"

subsection \<open>JSON elements and answers\<close>

text \<open>
  Modelled from the spec: the JSON element library (\<open>cc/data.h\<close>) is not among the
  sources. The parameters of a command and its answer are JSON values: an element is a
  value of one of the JSON types; a map is a list of named elements. \<open>get(name)\<close> on a
  map yields the element or the null pointer. Reading an element as what it is not
  (\<open>get(name)\<close> on an element that is not a map, \<open>stringValue()\<close> on one that is not a
  string) is how the library raises \<open>TypeError\<close>.
\<close>

datatype Element =
    NullElement
  | IntElement int
  | RealElement real
  | BoolElement bool
  | StringElement string
  | ListElement "Element list"
  | MapElement "(string \<times> Element) list"

definition Element_get :: "Element \<Rightarrow> string \<Rightarrow> error + Element option" where
  "Element_get e name =
     (case e of MapElement kvs \<Rightarrow> Inr (map_of kvs name) | _ \<Rightarrow> Inl TypeError)"

definition Element_is_string :: "Element \<Rightarrow> bool" where
  "Element_is_string e = (case e of StringElement s \<Rightarrow> True | _ \<Rightarrow> False)"

definition Element_stringValue :: "Element \<Rightarrow> error + string" where
  "Element_stringValue e = (case e of StringElement s \<Rightarrow> Inr s | _ \<Rightarrow> Inl TypeError)"

text \<open>
  Modelled from the spec: \<open>createAnswer\<close> (\<open>config/command_interpreter.h\<close>) is not among
  the sources. A response is \<open>{"result": 0|1, "text": "...", "arguments": {...}}\<close>: the
  answer made from a text holds the result and the text, the answer made from an element
  holds the result and the element as its arguments.
\<close>

definition CONTROL_RESULT_SUCCESS :: int where "CONTROL_RESULT_SUCCESS = 0"
definition CONTROL_RESULT_ERROR :: int where "CONTROL_RESULT_ERROR = 1"

definition createAnswer_text :: "int \<Rightarrow> string \<Rightarrow> Element" where
  "createAnswer_text rcode txt =
     MapElement [(''result'', IntElement rcode), (''text'', StringElement txt)]"

definition createAnswer_arg :: "int \<Rightarrow> Element \<Rightarrow> Element" where
  "createAnswer_arg rcode arg =
     MapElement [(''result'', IntElement rcode), (''arguments'', arg)]"

text \<open>The fields of an answer, for stating what a handler returned.\<close>

definition answer_result :: "Element \<Rightarrow> int option" where
  "answer_result a =
     (case a of
        MapElement kvs \<Rightarrow> (case map_of kvs ''result'' of Some (IntElement r) \<Rightarrow> Some r | _ \<Rightarrow> None)
      | _ \<Rightarrow> None)"

definition answer_text :: "Element \<Rightarrow> string option" where
  "answer_text a =
     (case a of
        MapElement kvs \<Rightarrow> (case map_of kvs ''text'' of Some (StringElement t) \<Rightarrow> Some t | _ \<Rightarrow> None)
      | _ \<Rightarrow> None)"

definition answer_arguments :: "Element \<Rightarrow> Element option" where
  "answer_arguments a = (case a of MapElement kvs \<Rightarrow> map_of kvs ''arguments'' | _ \<Rightarrow> None)"

subsection \<open>StatContext and StatsMgr\<close>

text \<open>
  Modelled from the spec: \<open>StatContext\<close> (\<open>context.h\<close>) is not among the sources. The
  manager holds named observations; \<open>stats_mgr.cc\<close> shows the member \<open>stats_\<close>, a map
  from names to observations, here a list of named observations. \<open>get\<close> yields the
  observation of a name or the null pointer; \<open>del\<close> removes the observation of a name
  and tells whether there was one.
\<close>

record StatContext =
  stats :: "(string \<times> Observation) list"

definition StatContext_get :: "StatContext \<Rightarrow> string \<Rightarrow> Observation option" where
  "StatContext_get ctx name = map_of (stats ctx) name"

definition StatContext_del :: "StatContext \<Rightarrow> string \<Rightarrow> bool \<times> StatContext" where
  "StatContext_del ctx name =
     (case map_of (stats ctx) name of
        None \<Rightarrow> (False, ctx)
      | Some obs \<Rightarrow> (True, ctx\<lparr>stats := filter (\<lambda>kv. fst kv \<noteq> name) (stats ctx)\<rparr>))"

record StatsMgr =
  global :: StatContext

definition StatsMgr_new :: StatsMgr where
  "StatsMgr_new = \<lparr> global = \<lparr> stats = [] \<rparr> \<rparr>"

definition StatsMgr_getObservation :: "StatsMgr \<Rightarrow> string \<Rightarrow> Observation option" where
  "StatsMgr_getObservation mgr name = StatContext_get (global mgr) name"

definition StatsMgr_setMaxSampleAge ::
  "string \<Rightarrow> Duration \<Rightarrow> StatsMgr \<Rightarrow> (error + unit) \<times> StatsMgr" where
  "StatsMgr_setMaxSampleAge name duration mgr = (Inl NotImplemented, mgr)"

definition StatsMgr_setMaxSampleCount ::
  "string \<Rightarrow> 32 word \<Rightarrow> StatsMgr \<Rightarrow> (error + unit) \<times> StatsMgr" where
  "StatsMgr_setMaxSampleCount name max_samples mgr = (Inl NotImplemented, mgr)"

text \<open>
  \<open>Observation::reset\<close> and \<open>Observation::getJSON\<close> are defined in \<open>observation.cc\<close>,
  which is not among the sources: the functions that call them take them as the
  arguments \<open>obs_reset\<close> and \<open>getJSON\<close>. The observation is reset in place.
\<close>

definition StatsMgr_reset ::
  "(Observation \<Rightarrow> Observation) \<Rightarrow> string \<Rightarrow> StatsMgr \<Rightarrow> bool \<times> StatsMgr" where
  "StatsMgr_reset obs_reset name mgr =
     (case StatsMgr_getObservation mgr name of
        Some obs \<Rightarrow>
          (True,
           mgr\<lparr>global := (global mgr)\<lparr>stats :=
                  map (\<lambda>kv. if fst kv = name then (fst kv, obs_reset (snd kv)) else kv)
                    (stats (global mgr))\<rparr>\<rparr>)
      | None \<Rightarrow> (False, mgr))"

definition StatsMgr_del :: "string \<Rightarrow> StatsMgr \<Rightarrow> bool \<times> StatsMgr" where
  "StatsMgr_del name mgr =
     (let (found, ctx) = StatContext_del (global mgr) name in (found, mgr\<lparr>global := ctx\<rparr>))"

definition StatsMgr_removeAll :: "StatsMgr \<Rightarrow> StatsMgr" where
  "StatsMgr_removeAll mgr = mgr\<lparr>global := (global mgr)\<lparr>stats := []\<rparr>\<rparr>"

definition StatsMgr_get :: "(Observation \<Rightarrow> Element) \<Rightarrow> string \<Rightarrow> StatsMgr \<Rightarrow> Element" where
  "StatsMgr_get getJSON name mgr =
     (case StatsMgr_getObservation mgr name of
        Some obs \<Rightarrow> MapElement [(name, getJSON obs)]
      | None \<Rightarrow> MapElement [])"

definition StatsMgr_getAll :: "(Observation \<Rightarrow> Element) \<Rightarrow> StatsMgr \<Rightarrow> Element" where
  "StatsMgr_getAll getJSON mgr =
     MapElement (map (\<lambda>kv. (fst kv, getJSON (snd kv))) (stats (global mgr)))"

definition StatsMgr_resetAll :: "(Observation \<Rightarrow> Observation) \<Rightarrow> StatsMgr \<Rightarrow> StatsMgr" where
  "StatsMgr_resetAll obs_reset mgr =
     mgr\<lparr>global := (global mgr)\<lparr>stats :=
            map (\<lambda>kv. (fst kv, obs_reset (snd kv))) (stats (global mgr))\<rparr>\<rparr>"

subsection \<open>Command handlers\<close>

text \<open>
  A handler gets the parameters of the command, \<open>None\<close> for the null pointer, and
  returns the answer, or the exception that leaves it, with the manager after the call.
\<close>

definition msg_missing_name :: string where
  "msg_missing_name = ''Missing mandatory '' @ [CHR 0x27] @ ''name'' @ [CHR 0x27] @ '' parameter.''"

definition msg_name_not_string :: string where
  "msg_name_not_string = [CHR 0x27] @ ''name'' @ [CHR 0x27] @ '' parameter expected to be a string.''"

definition msg_not_found :: "string \<Rightarrow> string" where
  "msg_not_found name = ''No '' @ [CHR 0x27] @ name @ [CHR 0x27] @ '' statistic found''"

definition msg_reset :: "string \<Rightarrow> string" where
  "msg_reset name = ''Statistic '' @ [CHR 0x27] @ name @ [CHR 0x27] @ '' reset.''"

definition msg_removed :: "string \<Rightarrow> string" where
  "msg_removed name = ''Statistic '' @ [CHR 0x27] @ name @ [CHR 0x27] @ '' removed.''"

definition StatsMgr_statisticGetHandler ::
  "(Observation \<Rightarrow> Element) \<Rightarrow> Element option \<Rightarrow> StatsMgr \<Rightarrow> (error + Element) \<times> StatsMgr" where
  "StatsMgr_statisticGetHandler getJSON params mgr =
     (case params of
        None \<Rightarrow> (Inr (createAnswer_text CONTROL_RESULT_ERROR msg_missing_name), mgr)
      | Some ps \<Rightarrow>
          (case Element_get ps ''name'' of
             Inl e \<Rightarrow> (Inl e, mgr)
           | Inr None \<Rightarrow> (Inr (createAnswer_text CONTROL_RESULT_ERROR msg_missing_name), mgr)
           | Inr (Some stat_name) \<Rightarrow>
               if \<not> Element_is_string stat_name
               then (Inr (createAnswer_text CONTROL_RESULT_ERROR msg_name_not_string), mgr)
               else
                 (case Element_stringValue stat_name of
                    Inl e \<Rightarrow> (Inl e, mgr)
                  | Inr name \<Rightarrow>
                      (Inr (createAnswer_arg CONTROL_RESULT_SUCCESS
                              (StatsMgr_get getJSON name mgr)), mgr))))"

definition StatsMgr_statisticResetHandler ::
  "(Observation \<Rightarrow> Observation) \<Rightarrow> Element option \<Rightarrow> StatsMgr
     \<Rightarrow> (error + Element) \<times> StatsMgr" where
  "StatsMgr_statisticResetHandler obs_reset params mgr =
     (case params of
        None \<Rightarrow> (Inr (createAnswer_text CONTROL_RESULT_ERROR msg_missing_name), mgr)
      | Some ps \<Rightarrow>
          (case Element_get ps ''name'' of
             Inl e \<Rightarrow> (Inl e, mgr)
           | Inr None \<Rightarrow> (Inr (createAnswer_text CONTROL_RESULT_ERROR msg_missing_name), mgr)
           | Inr (Some stat_name) \<Rightarrow>
               if \<not> Element_is_string stat_name
               then (Inr (createAnswer_text CONTROL_RESULT_ERROR msg_name_not_string), mgr)
               else
                 (case Element_stringValue stat_name of
                    Inl e \<Rightarrow> (Inl e, mgr)
                  | Inr name \<Rightarrow>
                      (let (found, mgr1) = StatsMgr_reset obs_reset name mgr
                       in if found
                          then (Inr (createAnswer_text CONTROL_RESULT_SUCCESS
                                       (msg_reset name)), mgr1)
                          else (Inr (createAnswer_text CONTROL_RESULT_ERROR
                                       (msg_not_found name)), mgr1)))))"

text \<open>
  The remove handler does not test the type of the name before it reads it as a string.
\<close>

definition StatsMgr_statisticRemoveHandler ::
  "Element option \<Rightarrow> StatsMgr \<Rightarrow> (error + Element) \<times> StatsMgr" where
  "StatsMgr_statisticRemoveHandler params mgr =
     (case params of
        None \<Rightarrow> (Inr (createAnswer_text CONTROL_RESULT_ERROR msg_missing_name), mgr)
      | Some ps \<Rightarrow>
          (case Element_get ps ''name'' of
             Inl e \<Rightarrow> (Inl e, mgr)
           | Inr None \<Rightarrow> (Inr (createAnswer_text CONTROL_RESULT_ERROR msg_missing_name), mgr)
           | Inr (Some stat_name) \<Rightarrow>
               (case Element_stringValue stat_name of
                  Inl e \<Rightarrow> (Inl e, mgr)
                | Inr name \<Rightarrow>
                    (let (found, mgr1) = StatsMgr_del name mgr
                     in if found
                        then (Inr (createAnswer_text CONTROL_RESULT_SUCCESS
                                     (msg_removed name)), mgr1)
                        else (Inr (createAnswer_text CONTROL_RESULT_ERROR
                                     (msg_not_found name)), mgr1)))))"

definition StatsMgr_statisticRemoveAllHandler ::
  "Element option \<Rightarrow> StatsMgr \<Rightarrow> (error + Element) \<times> StatsMgr" where
  "StatsMgr_statisticRemoveAllHandler params mgr =
     (Inr (createAnswer_text CONTROL_RESULT_SUCCESS ''All statistics removed.''),
      StatsMgr_removeAll mgr)"

definition StatsMgr_statisticGetAllHandler ::
  "(Observation \<Rightarrow> Element) \<Rightarrow> Element option \<Rightarrow> StatsMgr \<Rightarrow> (error + Element) \<times> StatsMgr" where
  "StatsMgr_statisticGetAllHandler getJSON params mgr =
     (Inr (createAnswer_arg CONTROL_RESULT_SUCCESS (StatsMgr_getAll getJSON mgr)), mgr)"

definition StatsMgr_statisticResetAllHandler ::
  "(Observation \<Rightarrow> Observation) \<Rightarrow> Element option \<Rightarrow> StatsMgr
     \<Rightarrow> (error + Element) \<times> StatsMgr" where
  "StatsMgr_statisticResetAllHandler obs_reset params mgr =
     (Inr (createAnswer_text CONTROL_RESULT_SUCCESS ''All statistics reset to neutral values.''),
      StatsMgr_resetAll obs_reset mgr)"


section \<open>Example values\<close>

text \<open>Two keys that the constructor accepts, for IPv4, on the same events and subnet.\<close>

definition key_discover_none :: DurationKey where
  "key_discover_none =
     \<lparr> family = AF_INET, query_type = DHCPDISCOVER, response_type = DHCP_NOTYPE,
       start_event_label = ''socket_received'', end_event_label = ''buffer_read'',
       subnet_id = 1 \<rparr>"

definition key_none_offer :: DurationKey where
  "key_none_offer =
     \<lparr> family = AF_INET, query_type = DHCP_NOTYPE, response_type = DHCPOFFER,
       start_event_label = ''socket_received'', end_event_label = ''buffer_read'',
       subnet_id = 1 \<rparr>"

text \<open>A new monitored duration on the first key, with an interval length of one second.\<close>

definition duration_1s :: MonitoredDuration where
  "duration_1s =
     \<lparr> family = AF_INET, query_type = DHCPDISCOVER, response_type = DHCP_NOTYPE,
       start_event_label = ''socket_received'', end_event_label = ''buffer_read'',
       subnet_id = 1, interval_duration = Ticks 1000000,
       current_interval = None, previous_interval = None \<rparr>"

text \<open>A key for IPv6, a store for IPv4 with an interval length of one second, the store
  after the first key was added with a first sample, and the heap then and after a
  second sample.\<close>

definition key_solicit_advertise :: DurationKey where
  "key_solicit_advertise =
     \<lparr> family = AF_INET6, query_type = DHCPV6_SOLICIT, response_type = DHCPV6_ADVERTISE,
       start_event_label = ''socket_received'', end_event_label = ''buffer_read'',
       subnet_id = 1 \<rparr>"

definition store_v4 :: MonitoredDurationStore where
  "store_v4 = \<lparr> store_family = AF_INET, store_interval_duration = Ticks 1000000,
                durations = Null \<rparr>"

definition heap_one :: Heap where
  "heap_one = [\<lparr> start_time = 100000, occurrences = 1, min_duration = Ticks 300,
                 max_duration = Ticks 300, total_duration = Ticks 300 \<rparr>]"

definition heap_two :: Heap where
  "heap_two = [\<lparr> start_time = 100000, occurrences = 2, min_duration = Ticks 300,
                 max_duration = Ticks 500, total_duration = Ticks 800 \<rparr>]"

definition store_v4_one :: MonitoredDurationStore where
  "store_v4_one =
     store_v4\<lparr>durations := Node black Null (duration_1s\<lparr>current_interval := Some 0\<rparr>) Null\<rparr>"

text \<open>
  Stand-ins for \<open>Observation::getJSON\<close> and \<open>Observation::reset\<close> in the examples, for a
  statistic of integer type: the samples as a list of pairs of value and timestamp, and
  a single sample of value zero.
\<close>

definition getJSON_integer :: "Observation \<Rightarrow> Element" where
  "getJSON_integer obs =
     ListElement (map (\<lambda>smp. ListElement [IntElement (uint (fst smp)), IntElement (snd smp)])
       (integer_samples obs))"

definition reset_integer :: "Observation \<Rightarrow> Observation" where
  "reset_integer obs = obs\<lparr>integer_samples := [(0, 0)]\<rparr>"

text \<open>A manager that holds the integer statistic \<open>pkt4-received\<close> with one sample.\<close>

definition obs_pkt4_received :: Observation where
  "obs_pkt4_received =
     \<lparr> obs_name = ''pkt4-received'', obs_type = STAT_INTEGER,
       integer_samples = [(5, 100000)], float_samples = [], duration_samples = [],
       string_samples = [] \<rparr>"

definition mgr_one :: StatsMgr where
  "mgr_one = \<lparr> global = \<lparr> stats = [(''pkt4-received'', obs_pkt4_received)] \<rparr> \<rparr>"

text \<open>A third key for IPv4 that the constructor accepts.\<close>

definition key_none_none :: DurationKey where
  "key_none_none =
     \<lparr> family = AF_INET, query_type = DHCP_NOTYPE, response_type = DHCP_NOTYPE,
       start_event_label = ''socket_received'', end_event_label = ''buffer_read'',
       subnet_id = 1 \<rparr>"

text \<open>
  The record that a store with an interval length of one second makes for a key that is
  added without a first sample.
\<close>

definition new_record :: "DurationKey \<Rightarrow> MonitoredDuration" where
  "new_record k =
     \<lparr> family = family k, query_type = query_type k, response_type = response_type k,
       start_event_label = start_event_label k, end_event_label = end_event_label k,
       subnet_id = subnet_id k, interval_duration = Ticks 1000000,
       current_interval = None, previous_interval = None \<rparr>"

text \<open>
  A sequence of calls of \<open>addDuration\<close> on one store, each with a key and without a first
  sample; the result holds what each call returned, in order.
\<close>

fun add_keys ::
  "DurationKey list \<Rightarrow> MonitoredDurationStore \<Rightarrow> Heap
     \<Rightarrow> (error + MonitoredDuration) list \<times> MonitoredDurationStore \<times> Heap" where
  "add_keys [] st h = ([], st, h)"
| "add_keys (k # ks) st h =
     (let (r, st1, h1) = MonitoredDurationStore_addDuration (Some k) ZERO_DURATION 0 st h;
          (rs, st2, h2) = add_keys ks st1 h1
      in (r # rs, st2, h2))"

text \<open>
  The store for IPv4 after the three keys were added in the order \<open>key_none_none\<close>,
  \<open>key_none_offer\<close>, \<open>key_discover_none\<close>, and after \<open>key_none_offer\<close> was added once
  more.
\<close>

definition store_v4_three :: MonitoredDurationStore where
  "store_v4_three =
     store_v4\<lparr>durations :=
       Node black (Node red Null (new_record key_none_none) Null)
         (new_record key_discover_none)
         (Node red Null (new_record key_none_offer) Null)\<rparr>"

definition store_v4_four :: MonitoredDurationStore where
  "store_v4_four =
     store_v4\<lparr>durations :=
       Node black
         (Node black Null (new_record key_none_none)
            (Node red Null (new_record key_none_offer) Null))
         (new_record key_discover_none)
         (Node black Null (new_record key_none_offer) Null)\<rparr>"

text \<open>The store for IPv4 after \<open>key_none_offer\<close> was added to the store that holds
  \<open>key_discover_none\<close>.\<close>

definition store_v4_two :: MonitoredDurationStore where
  "store_v4_two =
     store_v4\<lparr>durations :=
       Node black (Node red Null (new_record key_none_offer) Null)
         (duration_1s\<lparr>current_interval := Some 0\<rparr>) Null\<rparr>"

section \<open>Properties of the duration key\<close>

lemmas msg_type_defs =
  AF_INET_def AF_INET6_def
  DHCP_NOTYPE_def DHCPDISCOVER_def DHCPOFFER_def DHCPREQUEST_def DHCPACK_def
  DHCPNAK_def DHCPINFORM_def
  DHCPV6_NOTYPE_def DHCPV6_SOLICIT_def DHCPV6_ADVERTISE_def DHCPV6_REQUEST_def
  DHCPV6_CONFIRM_def DHCPV6_RENEW_def DHCPV6_REBIND_def DHCPV6_REPLY_def

text \<open>
  The lexicographic order is a strict order on keys that is consistent with their
  equality: of \<open>a < b\<close>, \<open>b < a\<close> and \<open>a == b\<close> exactly one holds.
\<close>

lemma DurationKey_lex_less_trichotomy:
  "(DurationKey_lex_less a b \<and> \<not> DurationKey_lex_less b a \<and> \<not> DurationKey_eq a b)
   \<or> (\<not> DurationKey_lex_less a b \<and> DurationKey_lex_less b a \<and> \<not> DurationKey_eq a b)
   \<or> (\<not> DurationKey_lex_less a b \<and> \<not> DurationKey_lex_less b a \<and> DurationKey_eq a b)"
  unfolding DurationKey_lex_less_def DurationKey_eq_def
  by (metis not_less_iff_gr_or_eq)

text \<open>
  C1. The claim is that \<open>operator<\<close> is the lexicographic strict order of the key tuple
  and that exactly one of \<open>a < b\<close>, \<open>b < a\<close>, \<open>a == b\<close> holds. The operator is the
  disjunction of the six component comparisons. For the two keys below, both accepted by
  the constructor, it holds in both directions although the keys are not equal, and it
  says \<open>a < b\<close> where the first differing component (the query type) of \<open>a\<close> is the
  larger one.
\<close>

theorem DurationKey_less_both_directions:
  "DurationKey_new AF_INET DHCPDISCOVER DHCP_NOTYPE ''socket_received'' ''buffer_read'' 1
     = Inr key_discover_none
   \<and> DurationKey_new AF_INET DHCP_NOTYPE DHCPOFFER ''socket_received'' ''buffer_read'' 1
     = Inr key_none_offer
   \<and> DurationKey_less key_discover_none key_none_offer
   \<and> DurationKey_less key_none_offer key_discover_none
   \<and> \<not> DurationKey_eq key_discover_none key_none_offer
   \<and> \<not> DurationKey_lex_less key_discover_none key_none_offer
   \<and> DurationKey_lex_less key_none_offer key_discover_none"
  by (simp add: DurationKey_new_def validateMessagePair_def key_discover_none_def
      key_none_offer_def DurationKey_less_def DurationKey_eq_def DurationKey_lex_less_def
      msg_type_defs)

lemma validateMessagePair_table:
  "validateMessagePair fam qt rt = Inr () \<longleftrightarrow>
     (fam = AF_INET \<and> (fam, qt, rt) \<in> set validated_combinations) \<or>
     (fam \<noteq> AF_INET \<and> (AF_INET6, qt, rt) \<in> set validated_combinations)"
  unfolding validateMessagePair_def validated_combinations_def
  by (auto simp: msg_type_defs)

lemma validateMessagePair_error:
  "validateMessagePair fam qt rt = Inl e \<Longrightarrow> e = BadValue"
  unfolding validateMessagePair_def by (auto split: if_splits)

lemma validated_family:
  "(fam, qt, rt) \<in> set validated_combinations \<Longrightarrow> fam = AF_INET \<or> fam = AF_INET6"
  unfolding validated_combinations_def by auto

lemma DurationKey_new_Inr:
  "DurationKey_new fam qt rt sl el sid = Inr k \<longleftrightarrow>
     (fam, qt, rt) \<in> set validated_combinations \<and>
     k = \<lparr> family = fam, query_type = qt, response_type = rt,
           start_event_label = sl, end_event_label = el, subnet_id = sid \<rparr>"
proof (cases "validateMessagePair fam qt rt")
  case (Inl e)
  then have "validateMessagePair fam qt rt \<noteq> Inr ()" by simp
  then have "(fam, qt, rt) \<notin> set validated_combinations"
    using validateMessagePair_table[of fam qt rt] validated_family[of fam qt rt] by auto
  then show ?thesis using Inl by (auto simp: DurationKey_new_def)
next
  case (Inr u)
  then have t: "validateMessagePair fam qt rt = Inr ()" by simp
  show ?thesis
  proof (cases "fam = AF_INET \<or> fam = AF_INET6")
    case True
    then have "(fam, qt, rt) \<in> set validated_combinations"
      using t validateMessagePair_table[of fam qt rt] by auto
    then show ?thesis using True Inr by (auto simp: DurationKey_new_def)
  next
    case False
    then have "(fam, qt, rt) \<notin> set validated_combinations"
      using validated_family by blast
    then show ?thesis using False by (auto simp: DurationKey_new_def)
  qed
qed

lemma DurationKey_new_Inl:
  "DurationKey_new fam qt rt sl el sid = Inl e \<Longrightarrow> e = BadValue"
  unfolding DurationKey_new_def
  by (auto split: if_splits sum.splits dest: validateMessagePair_error)

section \<open>Properties of an interval\<close>

lemma sdiv_truncates:
  fixes t n :: int
  assumes "0 < n"
  shows "\<bar>t - (t sdiv n) * n\<bar> < n \<and> \<bar>(t sdiv n) * n\<bar> \<le> \<bar>t\<bar>"
proof (cases "0 \<le> t")
  case True
  then have q: "t sdiv n = t div n"
    using assms by (simp add: signed_divide_int_def sgn_if)
  have m: "t - (t div n) * n = t mod n"
    by (simp add: minus_div_mult_eq_mod)
  have b: "0 \<le> t mod n" "t mod n < n" using assms by simp_all
  have nn: "0 \<le> (t div n) * n" using True assms by (simp add: pos_imp_zdiv_nonneg_iff)
  have le: "(t div n) * n \<le> t" using m b by linarith
  show ?thesis using q m b nn le True by simp
next
  case False
  then have neg: "t < 0" by simp
  then have q: "t sdiv n = - ((- t) div n)"
    using assms by (simp add: signed_divide_int_def sgn_if)
  have m: "(- t) - ((- t) div n) * n = (- t) mod n"
    by (simp add: minus_div_mult_eq_mod)
  have b: "0 \<le> (- t) mod n" "(- t) mod n < n" using assms by simp_all
  have nn: "0 \<le> ((- t) div n) * n" using neg assms by (simp add: pos_imp_zdiv_nonneg_iff)
  have le: "((- t) div n) * n \<le> - t" using m b by linarith
  show ?thesis using q m b nn le neg by simp
qed

lemma dur_div_pos: "0 < n \<Longrightarrow> dur_div d n \<noteq> None"
  by (cases d; cases n) simp_all

lemma dur_div_Ticks: "0 < n \<Longrightarrow> dur_div (Ticks t) n = Some (Ticks (t sdiv int n))"
  by (cases n) simp_all

text \<open>
  C7. \<open>getAverageDuration\<close> returns the zero duration when the occurrence count is zero,
  and the total divided by the count when the count is positive; the division is then
  defined. For a total of \<open>t\<close> ticks and a count \<open>n > 0\<close> the quotient \<open>q\<close> is the integer
  quotient truncated towards zero: \<open>t - q * n\<close> is smaller than \<open>n\<close> in absolute value and
  \<open>q * n\<close> is not larger than \<open>t\<close> in absolute value.
\<close>

theorem getAverageDuration_total_over_occurrences:
  "(occurrences iv = 0 \<longrightarrow>
      DurationDataInterval_getAverageDuration iv = Some ZERO_DURATION)
   \<and> (0 < occurrences iv \<longrightarrow>
      DurationDataInterval_getAverageDuration iv
        = dur_div (total_duration iv) (occurrences iv)
      \<and> DurationDataInterval_getAverageDuration iv \<noteq> None)
   \<and> (\<forall>t. 0 < occurrences iv \<and> total_duration iv = Ticks t \<longrightarrow>
      (\<exists>q. DurationDataInterval_getAverageDuration iv = Some (Ticks q)
          \<and> \<bar>t - q * int (occurrences iv)\<bar> < int (occurrences iv)
          \<and> \<bar>q * int (occurrences iv)\<bar> \<le> \<bar>t\<bar>))"
proof (intro conjI impI allI)
  assume "occurrences iv = 0"
  then show "DurationDataInterval_getAverageDuration iv = Some ZERO_DURATION"
    by (simp add: DurationDataInterval_getAverageDuration_def)
next
  assume "0 < occurrences iv"
  then show "DurationDataInterval_getAverageDuration iv
      = dur_div (total_duration iv) (occurrences iv)"
    by (simp add: DurationDataInterval_getAverageDuration_def)
next
  assume "0 < occurrences iv"
  then show "DurationDataInterval_getAverageDuration iv \<noteq> None"
    by (simp add: DurationDataInterval_getAverageDuration_def dur_div_pos)
next
  fix t
  assume a: "0 < occurrences iv \<and> total_duration iv = Ticks t"
  then have "DurationDataInterval_getAverageDuration iv
      = Some (Ticks (t sdiv int (occurrences iv)))"
    by (simp add: DurationDataInterval_getAverageDuration_def dur_div_Ticks)
  moreover have "\<bar>t - (t sdiv int (occurrences iv)) * int (occurrences iv)\<bar>
        < int (occurrences iv)
      \<and> \<bar>(t sdiv int (occurrences iv)) * int (occurrences iv)\<bar> \<le> \<bar>t\<bar>"
    using a sdiv_truncates[of "int (occurrences iv)" t] by simp
  ultimately show "\<exists>q. DurationDataInterval_getAverageDuration iv = Some (Ticks q)
          \<and> \<bar>t - q * int (occurrences iv)\<bar> < int (occurrences iv)
          \<and> \<bar>q * int (occurrences iv)\<bar> \<le> \<bar>t\<bar>"
    by blast
qed

theorem getAverageDuration_total_over_occurrences_witness:
  "DurationDataInterval_getAverageDuration (DurationDataInterval_new 0) = Some (Ticks 0)
   \<and> DurationDataInterval_getAverageDuration
       \<lparr> start_time = 0, occurrences = 3, min_duration = Ticks 2,
         max_duration = Ticks 5, total_duration = Ticks 10 \<rparr> = Some (Ticks 3)
   \<and> DurationDataInterval_getAverageDuration
       \<lparr> start_time = 0, occurrences = 2, min_duration = Ticks (- 5),
         max_duration = Ticks (- 2), total_duration = Ticks (- 7) \<rparr> = Some (Ticks (- 3))"
  using getAverageDuration_total_over_occurrences [of "DurationDataInterval_new 0"]
    getAverageDuration_total_over_occurrences
      [of "\<lparr> start_time = 0, occurrences = 3, min_duration = Ticks 2,
             max_duration = Ticks 5, total_duration = Ticks 10 \<rparr>"]
    getAverageDuration_total_over_occurrences
      [of "\<lparr> start_time = 0, occurrences = 2, min_duration = Ticks (- 5),
             max_duration = Ticks (- 2), total_duration = Ticks (- 7) \<rparr>"]
  by (simp add: DurationDataInterval_new_def ZERO_DURATION_def
      DurationDataInterval_getAverageDuration_def signed_divide_int_def
      numeral_2_eq_2 numeral_3_eq_3)

section \<open>Properties of the store and of the statistics manager that raise NotImplemented\<close>

text \<open>
  C6. \<open>MonitoredDurationStore::clear\<close> raises \<open>NotImplemented\<close> in every state of the
  store and leaves the store as it was.
\<close>

theorem MonitoredDurationStore_clear_not_implemented:
  "MonitoredDurationStore_clear st = (Inl NotImplemented, st)"
  by (simp add: MonitoredDurationStore_clear_def)

text \<open>
  C5. \<open>StatsMgr::setMaxSampleAge\<close> raises \<open>NotImplemented\<close> for every statistic name and
  every duration, and leaves the manager, hence every statistic, as it was.
\<close>

theorem setMaxSampleAge_not_implemented:
  "StatsMgr_setMaxSampleAge name duration mgr = (Inl NotImplemented, mgr)"
  by (simp add: StatsMgr_setMaxSampleAge_def)

text \<open>
  C4. The claim is that setting a maximum sample count succeeds and bounds the number of
  retained samples. \<open>StatsMgr::setMaxSampleCount\<close> does not succeed: for the statistic
  \<open>pkt4-received\<close> and the count 10 on a new manager it raises \<open>NotImplemented\<close>.
\<close>

theorem setMaxSampleCount_raises:
  "fst (StatsMgr_setMaxSampleCount ''pkt4-received'' 10 StatsMgr_new) = Inl NotImplemented
   \<and> fst (StatsMgr_setMaxSampleCount ''pkt4-received'' 10 StatsMgr_new) \<noteq> Inr ()"
  by (simp add: StatsMgr_setMaxSampleCount_def)

text \<open>
  C4, as amended. \<open>StatsMgr::setMaxSampleCount\<close> raises \<open>NotImplemented\<close> for every
  statistic name and every count, and leaves the manager, hence every statistic, as it
  was: no bound on the number of samples is set.
\<close>

theorem setMaxSampleCount_not_implemented:
  "StatsMgr_setMaxSampleCount name max_samples mgr = (Inl NotImplemented, mgr)"
  by (simp add: StatsMgr_setMaxSampleCount_def)

section \<open>Properties of a monitored duration\<close>



lemma addSample_no_current:
  "current_interval m = None \<Longrightarrow>
   MonitoredDuration_addSample m s now h =
     (False, m\<lparr>current_interval := Some (length h)\<rparr>,
      h @ [DurationDataInterval_addDuration (DurationDataInterval_new now) s])"
  by (simp add: MonitoredDuration_addSample_def heap_new_def heap_modify_def)

lemma addSample_rotate:
  "current_interval m = Some c \<Longrightarrow>
   dur_less (interval_duration m) (ts_diff now (start_time (h ! c))) \<Longrightarrow>
   MonitoredDuration_addSample m s now h =
     (True, m\<lparr>previous_interval := Some c, current_interval := Some (length h)\<rparr>,
      h @ [DurationDataInterval_addDuration (DurationDataInterval_new now) s])"
  by (simp add: MonitoredDuration_addSample_def heap_new_def heap_modify_def)

lemma addSample_same_interval:
  "current_interval m = Some c \<Longrightarrow>
   \<not> dur_less (interval_duration m) (ts_diff now (start_time (h ! c))) \<Longrightarrow>
   MonitoredDuration_addSample m s now h =
     (False, m, h[c := DurationDataInterval_addDuration (h ! c) s])"
  by (simp add: MonitoredDuration_addSample_def heap_modify_def)







section \<open>Properties of the command handlers\<close>

lemma answer_result_createAnswer [simp]:
  "answer_result (createAnswer_text r t) = Some r"
  "answer_result (createAnswer_arg r a) = Some r"
  by (simp_all add: answer_result_def createAnswer_text_def createAnswer_arg_def)

lemma answer_text_createAnswer [simp]:
  "answer_text (createAnswer_text r t) = Some t"
  by (simp add: answer_text_def createAnswer_text_def)

lemma answer_arguments_createAnswer [simp]:
  "answer_arguments (createAnswer_arg r a) = Some a"
  by (simp add: answer_arguments_def createAnswer_arg_def)

lemmas handler_defs =
  StatsMgr_statisticGetHandler_def StatsMgr_statisticResetHandler_def
  StatsMgr_statisticRemoveHandler_def StatsMgr_statisticGetAllHandler_def
  StatsMgr_statisticResetAllHandler_def StatsMgr_statisticRemoveAllHandler_def
  Element_get_def Element_is_string_def Element_stringValue_def

lemma StatsMgr_reset_found:
  "fst (StatsMgr_reset obs_reset n mgr) = (StatsMgr_getObservation mgr n \<noteq> None)"
  by (simp add: StatsMgr_reset_def split: option.splits)

lemma StatsMgr_del_found:
  "fst (StatsMgr_del n mgr) = (StatsMgr_getObservation mgr n \<noteq> None)"
  by (simp add: StatsMgr_del_def StatContext_del_def StatsMgr_getObservation_def
      StatContext_get_def split: option.splits)

lemma StatsMgr_del_removes:
  "StatsMgr_getObservation (snd (StatsMgr_del n mgr)) n = None"
  by (auto simp: StatsMgr_del_def StatContext_del_def StatsMgr_getObservation_def
      StatContext_get_def map_of_eq_None_iff split: option.splits)

lemma StatsMgr_reset_not_found:
  "StatsMgr_getObservation mgr n = None \<Longrightarrow> snd (StatsMgr_reset obs_reset n mgr) = mgr"
  by (simp add: StatsMgr_reset_def)

lemma StatsMgr_del_not_found:
  "StatsMgr_getObservation mgr n = None \<Longrightarrow> snd (StatsMgr_del n mgr) = mgr"
  by (simp add: StatsMgr_del_def StatContext_del_def StatsMgr_getObservation_def
      StatContext_get_def)

lemma missing_name_get:
  "params = None \<or> (params = Some (MapElement kvs) \<and> map_of kvs ''name'' = None) \<Longrightarrow>
   StatsMgr_statisticGetHandler getJSON params mgr
     = (Inr (createAnswer_text CONTROL_RESULT_ERROR msg_missing_name), mgr)"
  by (auto simp: handler_defs)

lemma missing_name_reset:
  "params = None \<or> (params = Some (MapElement kvs) \<and> map_of kvs ''name'' = None) \<Longrightarrow>
   StatsMgr_statisticResetHandler obs_reset params mgr
     = (Inr (createAnswer_text CONTROL_RESULT_ERROR msg_missing_name), mgr)"
  by (auto simp: handler_defs)

lemma missing_name_remove:
  "params = None \<or> (params = Some (MapElement kvs) \<and> map_of kvs ''name'' = None) \<Longrightarrow>
   StatsMgr_statisticRemoveHandler params mgr
     = (Inr (createAnswer_text CONTROL_RESULT_ERROR msg_missing_name), mgr)"
  by (auto simp: handler_defs)

lemma not_string_get:
  "map_of kvs ''name'' = Some v \<Longrightarrow> \<not> Element_is_string v \<Longrightarrow>
   StatsMgr_statisticGetHandler getJSON (Some (MapElement kvs)) mgr
     = (Inr (createAnswer_text CONTROL_RESULT_ERROR msg_name_not_string), mgr)"
  by (simp add: StatsMgr_statisticGetHandler_def Element_get_def)

lemma not_string_reset:
  "map_of kvs ''name'' = Some v \<Longrightarrow> \<not> Element_is_string v \<Longrightarrow>
   StatsMgr_statisticResetHandler obs_reset (Some (MapElement kvs)) mgr
     = (Inr (createAnswer_text CONTROL_RESULT_ERROR msg_name_not_string), mgr)"
  by (simp add: StatsMgr_statisticResetHandler_def Element_get_def)

lemma string_name_get:
  "map_of kvs ''name'' = Some (StringElement n) \<Longrightarrow>
   StatsMgr_statisticGetHandler getJSON (Some (MapElement kvs)) mgr
     = (Inr (createAnswer_arg CONTROL_RESULT_SUCCESS
          (case StatsMgr_getObservation mgr n of
             Some obs \<Rightarrow> MapElement [(n, getJSON obs)]
           | None \<Rightarrow> MapElement [])), mgr)"
  by (simp add: handler_defs StatsMgr_get_def)

lemma string_name_reset:
  "map_of kvs ''name'' = Some (StringElement n) \<Longrightarrow>
   StatsMgr_statisticResetHandler obs_reset (Some (MapElement kvs)) mgr
     = (if StatsMgr_getObservation mgr n \<noteq> None
        then (Inr (createAnswer_text CONTROL_RESULT_SUCCESS (msg_reset n)),
              snd (StatsMgr_reset obs_reset n mgr))
        else (Inr (createAnswer_text CONTROL_RESULT_ERROR (msg_not_found n)), mgr))"
  using StatsMgr_reset_found[of obs_reset n mgr] StatsMgr_reset_not_found[of mgr n obs_reset]
  by (auto simp: handler_defs split_beta)

lemma string_name_remove:
  "map_of kvs ''name'' = Some (StringElement n) \<Longrightarrow>
   StatsMgr_statisticRemoveHandler (Some (MapElement kvs)) mgr
     = (if StatsMgr_getObservation mgr n \<noteq> None
        then (Inr (createAnswer_text CONTROL_RESULT_SUCCESS (msg_removed n)),
              snd (StatsMgr_del n mgr))
        else (Inr (createAnswer_text CONTROL_RESULT_ERROR (msg_not_found n)), mgr))"
  using StatsMgr_del_found[of n mgr] StatsMgr_del_not_found[of mgr n]
  by (auto simp: handler_defs split_beta)

text \<open>
  C8. The claim is that a request with a string name yields result 1 when no such
  statistic exists. \<open>statistic-get\<close> for a name that the manager does not hold answers
  with result 0 and an empty map as its arguments.
\<close>

theorem statisticGetHandler_unknown_name_result_0:
  "StatsMgr_getObservation StatsMgr_new ''no-such-statistic'' = None
   \<and> StatsMgr_statisticGetHandler getJSON_integer
        (Some (MapElement [(''name'', StringElement ''no-such-statistic'')])) StatsMgr_new
       = (Inr (createAnswer_arg 0 (MapElement [])), StatsMgr_new)
   \<and> answer_result (createAnswer_arg 0 (MapElement [])) = Some 0
   \<and> answer_result (createAnswer_arg 0 (MapElement [])) \<noteq> Some 1"
  by (simp add: handler_defs StatsMgr_get_def StatsMgr_getObservation_def
      StatContext_get_def StatsMgr_new_def CONTROL_RESULT_SUCCESS_def)

text \<open>
  The remove handler, unlike the other two, reads the name as a string without testing
  its type: a name that is not a string makes it raise \<open>TypeError\<close>.
\<close>

lemma statisticRemoveHandler_name_not_string_raises:
  "StatsMgr_statisticRemoveHandler (Some (MapElement [(''name'', IntElement 7)])) mgr_one
     = (Inl TypeError, mgr_one)"
  by (simp add: handler_defs)

text \<open>
  C8, as amended. The parameters are absent or a map. For \<open>statistic-get\<close>,
  \<open>statistic-reset\<close> and \<open>statistic-remove\<close>, absent parameters or a map without
  \<open>name\<close> yield an answer with result 1 and a text, and the manager is unchanged. For
  \<open>statistic-get\<close> and \<open>statistic-reset\<close>, a \<open>name\<close> that is not a string yields an
  answer with result 1 and a text. With a string \<open>name\<close>: \<open>statistic-get\<close> always
  answers with result 0, its arguments a map that holds the statistic when it exists and
  is empty when it does not; \<open>statistic-reset\<close> and \<open>statistic-remove\<close> answer with
  result 0 when the statistic exists, and then reset or remove it, and with result 1
  and a text when it does not. The three \<open>-all\<close> handlers answer with result 0 whatever
  the parameters are.
\<close>

theorem statistic_handlers_answers:
  "CONTROL_RESULT_SUCCESS = 0 \<and> CONTROL_RESULT_ERROR = 1
   \<and> (\<forall>r t a. answer_result (createAnswer_text r t) = Some r
              \<and> answer_text (createAnswer_text r t) = Some t
              \<and> answer_result (createAnswer_arg r a) = Some r
              \<and> answer_arguments (createAnswer_arg r a) = Some a)
   \<and> (params = None \<or> (params = Some (MapElement kvs) \<and> map_of kvs ''name'' = None) \<longrightarrow>
        StatsMgr_statisticGetHandler getJSON params mgr
          = (Inr (createAnswer_text CONTROL_RESULT_ERROR msg_missing_name), mgr)
        \<and> StatsMgr_statisticResetHandler obs_reset params mgr
          = (Inr (createAnswer_text CONTROL_RESULT_ERROR msg_missing_name), mgr)
        \<and> StatsMgr_statisticRemoveHandler params mgr
          = (Inr (createAnswer_text CONTROL_RESULT_ERROR msg_missing_name), mgr))
   \<and> (\<forall>v. map_of kvs ''name'' = Some v \<and> \<not> Element_is_string v \<longrightarrow>
        StatsMgr_statisticGetHandler getJSON (Some (MapElement kvs)) mgr
          = (Inr (createAnswer_text CONTROL_RESULT_ERROR msg_name_not_string), mgr)
        \<and> StatsMgr_statisticResetHandler obs_reset (Some (MapElement kvs)) mgr
          = (Inr (createAnswer_text CONTROL_RESULT_ERROR msg_name_not_string), mgr))
   \<and> (\<forall>n. map_of kvs ''name'' = Some (StringElement n) \<longrightarrow>
        StatsMgr_statisticGetHandler getJSON (Some (MapElement kvs)) mgr
          = (Inr (createAnswer_arg CONTROL_RESULT_SUCCESS
               (case StatsMgr_getObservation mgr n of
                  Some obs \<Rightarrow> MapElement [(n, getJSON obs)]
                | None \<Rightarrow> MapElement [])), mgr)
        \<and> StatsMgr_statisticResetHandler obs_reset (Some (MapElement kvs)) mgr
          = (if StatsMgr_getObservation mgr n \<noteq> None
             then (Inr (createAnswer_text CONTROL_RESULT_SUCCESS (msg_reset n)),
                   snd (StatsMgr_reset obs_reset n mgr))
             else (Inr (createAnswer_text CONTROL_RESULT_ERROR (msg_not_found n)), mgr))
        \<and> StatsMgr_statisticRemoveHandler (Some (MapElement kvs)) mgr
          = (if StatsMgr_getObservation mgr n \<noteq> None
             then (Inr (createAnswer_text CONTROL_RESULT_SUCCESS (msg_removed n)),
                   snd (StatsMgr_del n mgr))
             else (Inr (createAnswer_text CONTROL_RESULT_ERROR (msg_not_found n)), mgr))
        \<and> StatsMgr_getObservation (snd (StatsMgr_del n mgr)) n = None)
   \<and> StatsMgr_statisticGetAllHandler getJSON any_params mgr
       = (Inr (createAnswer_arg CONTROL_RESULT_SUCCESS (StatsMgr_getAll getJSON mgr)), mgr)
   \<and> StatsMgr_statisticResetAllHandler obs_reset any_params mgr
       = (Inr (createAnswer_text CONTROL_RESULT_SUCCESS
                 ''All statistics reset to neutral values.''),
          StatsMgr_resetAll obs_reset mgr)
   \<and> StatsMgr_statisticRemoveAllHandler any_params mgr
       = (Inr (createAnswer_text CONTROL_RESULT_SUCCESS ''All statistics removed.''),
          StatsMgr_removeAll mgr)"
proof (intro conjI allI impI)
  show "CONTROL_RESULT_SUCCESS = 0" by (simp add: CONTROL_RESULT_SUCCESS_def)
  show "CONTROL_RESULT_ERROR = 1" by (simp add: CONTROL_RESULT_ERROR_def)
next
  fix r t a
  show "answer_result (createAnswer_text r t) = Some r" by simp
  show "answer_text (createAnswer_text r t) = Some t" by simp
  show "answer_result (createAnswer_arg r a) = Some r" by simp
  show "answer_arguments (createAnswer_arg r a) = Some a" by simp
next
  assume a: "params = None \<or> (params = Some (MapElement kvs) \<and> map_of kvs ''name'' = None)"
  show "StatsMgr_statisticGetHandler getJSON params mgr
          = (Inr (createAnswer_text CONTROL_RESULT_ERROR msg_missing_name), mgr)"
    using a by (rule missing_name_get)
  show "StatsMgr_statisticResetHandler obs_reset params mgr
          = (Inr (createAnswer_text CONTROL_RESULT_ERROR msg_missing_name), mgr)"
    using a by (rule missing_name_reset)
  show "StatsMgr_statisticRemoveHandler params mgr
          = (Inr (createAnswer_text CONTROL_RESULT_ERROR msg_missing_name), mgr)"
    using a by (rule missing_name_remove)
next
  fix v
  assume a: "map_of kvs ''name'' = Some v \<and> \<not> Element_is_string v"
  show "StatsMgr_statisticGetHandler getJSON (Some (MapElement kvs)) mgr
          = (Inr (createAnswer_text CONTROL_RESULT_ERROR msg_name_not_string), mgr)"
    using a by (simp add: not_string_get)
  show "StatsMgr_statisticResetHandler obs_reset (Some (MapElement kvs)) mgr
          = (Inr (createAnswer_text CONTROL_RESULT_ERROR msg_name_not_string), mgr)"
    using a by (simp add: not_string_reset)
next
  fix n
  assume a: "map_of kvs ''name'' = Some (StringElement n)"
  show "StatsMgr_statisticGetHandler getJSON (Some (MapElement kvs)) mgr
          = (Inr (createAnswer_arg CONTROL_RESULT_SUCCESS
               (case StatsMgr_getObservation mgr n of
                  Some obs \<Rightarrow> MapElement [(n, getJSON obs)]
                | None \<Rightarrow> MapElement [])), mgr)"
    using a by (rule string_name_get)
  show "StatsMgr_statisticResetHandler obs_reset (Some (MapElement kvs)) mgr
          = (if StatsMgr_getObservation mgr n \<noteq> None
             then (Inr (createAnswer_text CONTROL_RESULT_SUCCESS (msg_reset n)),
                   snd (StatsMgr_reset obs_reset n mgr))
             else (Inr (createAnswer_text CONTROL_RESULT_ERROR (msg_not_found n)), mgr))"
    using a by (rule string_name_reset)
  show "StatsMgr_statisticRemoveHandler (Some (MapElement kvs)) mgr
          = (if StatsMgr_getObservation mgr n \<noteq> None
             then (Inr (createAnswer_text CONTROL_RESULT_SUCCESS (msg_removed n)),
                   snd (StatsMgr_del n mgr))
             else (Inr (createAnswer_text CONTROL_RESULT_ERROR (msg_not_found n)), mgr))"
    using a by (rule string_name_remove)
  show "StatsMgr_getObservation (snd (StatsMgr_del n mgr)) n = None"
    by (rule StatsMgr_del_removes)
next
  show "StatsMgr_statisticGetAllHandler getJSON any_params mgr
       = (Inr (createAnswer_arg CONTROL_RESULT_SUCCESS (StatsMgr_getAll getJSON mgr)), mgr)"
    by (simp add: StatsMgr_statisticGetAllHandler_def)
  show "StatsMgr_statisticResetAllHandler obs_reset any_params mgr
       = (Inr (createAnswer_text CONTROL_RESULT_SUCCESS
                 ''All statistics reset to neutral values.''),
          StatsMgr_resetAll obs_reset mgr)"
    by (simp add: StatsMgr_statisticResetAllHandler_def)
  show "StatsMgr_statisticRemoveAllHandler any_params mgr
       = (Inr (createAnswer_text CONTROL_RESULT_SUCCESS ''All statistics removed.''),
          StatsMgr_removeAll mgr)"
    by (simp add: StatsMgr_statisticRemoveAllHandler_def)
qed

theorem statistic_handlers_answers_witness:
  "StatsMgr_statisticGetHandler getJSON_integer None mgr_one
     = (Inr (createAnswer_text 1 msg_missing_name), mgr_one)
   \<and> StatsMgr_statisticRemoveHandler (Some (MapElement [])) mgr_one
     = (Inr (createAnswer_text 1 msg_missing_name), mgr_one)
   \<and> \<not> Element_is_string (IntElement 7)
   \<and> StatsMgr_statisticResetHandler reset_integer
        (Some (MapElement [(''name'', IntElement 7)])) mgr_one
     = (Inr (createAnswer_text 1 msg_name_not_string), mgr_one)
   \<and> StatsMgr_getObservation mgr_one ''pkt4-received'' = Some obs_pkt4_received
   \<and> StatsMgr_statisticGetHandler getJSON_integer
        (Some (MapElement [(''name'', StringElement ''pkt4-received'')])) mgr_one
     = (Inr (createAnswer_arg 0
          (MapElement [(''pkt4-received'',
             ListElement [ListElement [IntElement 5, IntElement 100000]])])), mgr_one)
   \<and> StatsMgr_statisticRemoveHandler
        (Some (MapElement [(''name'', StringElement ''pkt4-received'')])) mgr_one
     = (Inr (createAnswer_text 0 (msg_removed ''pkt4-received'')), StatsMgr_new)
   \<and> StatsMgr_getObservation mgr_one ''no-such-statistic'' = None
   \<and> StatsMgr_statisticResetHandler reset_integer
        (Some (MapElement [(''name'', StringElement ''no-such-statistic'')])) mgr_one
     = (Inr (createAnswer_text 1 (msg_not_found ''no-such-statistic'')), mgr_one)
   \<and> answer_result (createAnswer_text 1 (msg_not_found ''no-such-statistic'')) = Some 1"
proof -
  note T = statistic_handlers_answers
      [where params = None and kvs = "[(''name'', StringElement ''pkt4-received'')]"
         and mgr = mgr_one and getJSON = getJSON_integer and obs_reset = reset_integer]
  note E = statistic_handlers_answers
      [where params = "Some (MapElement [])" and kvs = "[]"
         and mgr = mgr_one and getJSON = getJSON_integer and obs_reset = reset_integer]
  note U = statistic_handlers_answers
      [where kvs = "[(''name'', IntElement 7)]"
         and mgr = mgr_one and getJSON = getJSON_integer and obs_reset = reset_integer]
  note V = statistic_handlers_answers
      [where kvs = "[(''name'', StringElement ''no-such-statistic'')]"
         and mgr = mgr_one and getJSON = getJSON_integer and obs_reset = reset_integer]
  have ok: "CONTROL_RESULT_SUCCESS = 0" and err: "CONTROL_RESULT_ERROR = 1"
    using T[THEN conjunct1] T[THEN conjunct2, THEN conjunct1] by simp_all
  have 1: "StatsMgr_statisticGetHandler getJSON_integer None mgr_one
     = (Inr (createAnswer_text 1 msg_missing_name), mgr_one)"
    using T[THEN conjunct2, THEN conjunct2, THEN conjunct2, THEN conjunct1] err by simp
  have 2: "StatsMgr_statisticRemoveHandler (Some (MapElement [])) mgr_one
     = (Inr (createAnswer_text 1 msg_missing_name), mgr_one)"
    using E[THEN conjunct2, THEN conjunct2, THEN conjunct2, THEN conjunct1] err by simp
  have ns: "\<not> Element_is_string (IntElement 7)"
    by (simp add: Element_is_string_def)
  have 3: "StatsMgr_statisticResetHandler reset_integer
        (Some (MapElement [(''name'', IntElement 7)])) mgr_one
     = (Inr (createAnswer_text 1 msg_name_not_string), mgr_one)"
    using U[THEN conjunct2, THEN conjunct2, THEN conjunct2, THEN conjunct2, THEN conjunct1]
      ns err
    by simp
  have g: "StatsMgr_getObservation mgr_one ''pkt4-received'' = Some obs_pkt4_received"
    by (simp add: StatsMgr_getObservation_def StatContext_get_def mgr_one_def)
  have j: "getJSON_integer obs_pkt4_received
      = ListElement [ListElement [IntElement 5, IntElement 100000]]"
    by (simp add: getJSON_integer_def obs_pkt4_received_def)
  have d: "snd (StatsMgr_del ''pkt4-received'' mgr_one) = StatsMgr_new"
    by (simp add: StatsMgr_del_def StatContext_del_def mgr_one_def StatsMgr_new_def)
  note T6 = T[THEN conjunct2, THEN conjunct2, THEN conjunct2, THEN conjunct2,
      THEN conjunct2, THEN conjunct1, rule_format, of "''pkt4-received''"]
  have 4: "StatsMgr_statisticGetHandler getJSON_integer
        (Some (MapElement [(''name'', StringElement ''pkt4-received'')])) mgr_one
     = (Inr (createAnswer_arg 0
          (MapElement [(''pkt4-received'',
             ListElement [ListElement [IntElement 5, IntElement 100000]])])), mgr_one)"
    using T6 g j ok by simp
  have 5: "StatsMgr_statisticRemoveHandler
        (Some (MapElement [(''name'', StringElement ''pkt4-received'')])) mgr_one
     = (Inr (createAnswer_text 0 (msg_removed ''pkt4-received'')), StatsMgr_new)"
    using T6 g d ok by simp
  have n: "StatsMgr_getObservation mgr_one ''no-such-statistic'' = None"
    by (simp add: StatsMgr_getObservation_def StatContext_get_def mgr_one_def)
  note V6 = V[THEN conjunct2, THEN conjunct2, THEN conjunct2, THEN conjunct2,
      THEN conjunct2, THEN conjunct1, rule_format, of "''no-such-statistic''"]
  have 6: "StatsMgr_statisticResetHandler reset_integer
        (Some (MapElement [(''name'', StringElement ''no-such-statistic'')])) mgr_one
     = (Inr (createAnswer_text 1 (msg_not_found ''no-such-statistic'')), mgr_one)"
    using V6 n err by simp
  have 7: "answer_result (createAnswer_text 1 (msg_not_found ''no-such-statistic'')) = Some 1"
    using T[THEN conjunct2, THEN conjunct2, THEN conjunct1] by blast
  show ?thesis using 1 2 ns 3 g 4 5 n 6 7 by (intro conjI)
qed

section \<open>Properties of the ordered index\<close>

lemma inorder_node_on [simp]:
  "inorder (node_on s c t v other) =
     (if s = to_left then inorder t @ v # inorder other
      else inorder other @ v # inorder t)"
  by (cases s) simp_all

lemma inorder_set_color [simp]: "inorder (set_color c t) = inorder t"
  by (cases t) simp_all

lemma inorder_plug: "inorder (plug t p) = before p @ inorder t @ after p"
proof (induction p arbitrary: t)
  case Nil
  then show ?case by simp
next
  case (Cons f p)
  obtain s c v other where f: "f = (s, c, v, other)" by (cases f)
  show ?case using Cons f by (cases s) (simp_all add: inorder_node_on)
qed

lemma before_append: "before (q @ p) = before p @ before q"
proof (induction q)
  case Nil
  then show ?case by simp
next
  case (Cons f q)
  obtain s c v other where f: "f = (s, c, v, other)" by (cases f)
  show ?case using Cons f by (cases s) simp_all
qed

lemma after_append: "after (q @ p) = after q @ after p"
proof (induction q)
  case Nil
  then show ?case by simp
next
  case (Cons f q)
  obtain s c v other where f: "f = (s, c, v, other)" by (cases f)
  show ?case using Cons f by (cases s) simp_all
qed

lemma inorder_rotate_up:
  "inorder (rotate_up s gs x pc pv sib gc gv unc)
     = inorder (node_on gs gc (node_on s pc x pv sib) gv unc)"
  by (cases s; cases gs; cases x) simp_all

lemma inorder_rebalance: "inorder (rebalance x p) = inorder (plug x p)"
proof (induction x p rule: rebalance.induct)
  case (1 x)
  then show ?case by simp
next
  case (2 x f)
  then show ?case by simp
next
  case (3 x s pc pv sib gs gc gv unc rest)
  show ?case
  proof (cases "pc \<noteq> red")
    case True
    then show ?thesis by simp
  next
    case pr: False
    show ?thesis
    proof (cases "color_of unc = red")
      case True
      then have "inorder (rebalance x ((s, pc, pv, sib) # (gs, gc, gv, unc) # rest))
          = inorder (plug (node_on gs red (node_on s black x pv sib) gv (set_color black unc)) rest)"
        using pr 3 by simp
      also have "\<dots> = inorder (plug x ((s, pc, pv, sib) # (gs, gc, gv, unc) # rest))"
        by (cases s; cases gs) (simp_all add: inorder_plug)
      finally show ?thesis .
    next
      case False
      then have "inorder (rebalance x ((s, pc, pv, sib) # (gs, gc, gv, unc) # rest))
          = inorder (plug (rotate_up s gs x pc pv sib gc gv unc) rest)"
        using pr by simp
      also have "\<dots> = inorder (plug x ((s, pc, pv, sib) # (gs, gc, gv, unc) # rest))"
        by (simp add: inorder_plug inorder_rotate_up)
      finally show ?thesis .
    qed
  qed
qed

lemma inorder_link: "inorder (link v p) = before p @ v # after p"
  by (simp add: link_def inorder_rebalance inorder_plug)

lemma descend_keeps:
  "before (descend f t p) @ after (descend f t p) = before p @ inorder t @ after p"
  by (induction t arbitrary: p) simp_all

lemma link_point_Some:
  "link_point k t = Some p \<Longrightarrow> before p @ after p = inorder t"
  using descend_keeps[of "\<lambda>v. DurationKey_less k v" t "[]"]
  by (auto simp: link_point_def Let_def split: option.splits if_splits)

lemma index_insert_cases:
  "(index_insert v t = (t, False))
   \<or> (\<exists>xs ys t'. index_insert v t = (t', True) \<and> inorder t = xs @ ys
         \<and> inorder t' = xs @ v # ys)"
proof (cases "link_point v t")
  case None
  then show ?thesis by (simp add: index_insert_def)
next
  case (Some p)
  then have "inorder t = before p @ after p" by (simp add: link_point_Some)
  then show ?thesis using Some by (auto simp: index_insert_def inorder_link)
qed

lemma find_descend_place:
  assumes "plug t p = whole"
    and "\<forall>pos. y = Some pos \<longrightarrow> plug (snd pos) (fst pos) = whole \<and> snd pos \<noteq> Null"
    and "find_descend f t p y = Some pos"
  shows "plug (snd pos) (fst pos) = whole \<and> snd pos \<noteq> Null"
  using assms
proof (induction t arbitrary: p y)
  case Null
  then show ?case by (cases pos) auto
next
  case (Node c l v r)
  show ?case
  proof (cases "f v")
    case True
    then have "find_descend f r ((to_right, c, v, l) # p) y = Some pos"
      using Node.prems(3) by simp
    moreover have "plug r ((to_right, c, v, l) # p) = whole"
      using Node.prems(1) by simp
    ultimately show ?thesis using Node.IH(2) Node.prems(2) by blast
  next
    case False
    then have "find_descend f l ((to_left, c, v, r) # p) (Some (p, Node c l v r)) = Some pos"
      using Node.prems(3) by simp
    moreover have "plug l ((to_left, c, v, r) # p) = whole"
      using Node.prems(1) by simp
    moreover have "\<forall>pos. Some (p, Node c l v r) = Some pos \<longrightarrow>
        plug (snd pos) (fst pos) = whole \<and> snd pos \<noteq> Null"
      using Node.prems(1) by simp
    ultimately show ?thesis using Node.IH(1) by blast
  qed
qed

lemma index_find_place:
  assumes "index_find x t = Some pos"
  shows "\<exists>p c l v r. pos = (p, Node c l v r) \<and> plug (Node c l v r) p = t"
proof -
  from assms obtain pos' where f: "find_descend (\<lambda>v. DurationKey_less v x) t [] None = Some pos'"
    by (auto simp: index_find_def split: option.splits)
  have "plug (snd pos') (fst pos') = t \<and> snd pos' \<noteq> Null"
    using find_descend_place[of t "[]" t None _ pos'] f by simp
  moreover have "pos = pos'"
    using assms f by (auto simp: index_find_def split: prod.splits rb_tree.splits if_splits)
  ultimately show ?thesis by (cases pos; cases "snd pos") auto
qed

lemma place_in_tree:
  "plug (Node c l v r) p = t \<Longrightarrow> v \<in> set (inorder t)"
  by (auto simp: inorder_plug)

lemma inorder_fix_sibling:
  "inorder (fst (fix_sibling s x pc pv w)) = inorder (node_on s pc x pv w)"
proof (cases w)
  case Null
  then show ?thesis by simp
next
  case (Node wc wl wv wr)
  show ?thesis
  proof (cases s)
    case to_left
    show ?thesis
    proof (cases "color_of wl \<noteq> red \<and> color_of wr \<noteq> red")
      case True
      then show ?thesis using Node to_left by simp
    next
      case False
      then show ?thesis using Node to_left by (cases wl) auto
    qed
  next
    case to_right
    show ?thesis
    proof (cases "color_of wr \<noteq> red \<and> color_of wl \<noteq> red")
      case True
      then show ?thesis using Node to_right by simp
    next
      case False
      then show ?thesis using Node to_right by (cases wr) auto
    qed
  qed
qed

lemma inorder_erase_fixup: "inorder (erase_fixup x p) = inorder (plug x p)"
proof (induction x p rule: erase_fixup.induct)
  case (1 x)
  then show ?case by simp
next
  case (2 x s pc pv w rest)
  show ?case
  proof (cases "color_of x = red")
    case True
    then show ?thesis by (cases s) (simp_all add: inorder_plug)
  next
    case xb: False
    show ?thesis
    proof (cases "\<exists>wl wv wr. w = Node red wl wv wr")
      case True
      then obtain wl wv wr where w: "w = Node red wl wv wr" by blast
      define w' where "w' = (if s = to_left then wl else wr)"
      define far where "far = (if s = to_left then wr else wl)"
      obtain sub go_on where fs: "fix_sibling s x red pv w' = (sub, go_on)"
        by (cases "fix_sibling s x red pv w'")
      have sub: "inorder sub = inorder (node_on s red x pv w')"
        using inorder_fix_sibling[of s x red pv w'] fs by simp
      have "erase_fixup x ((s, pc, pv, w) # rest)
          = plug (if go_on then set_color black sub else sub) ((s, black, wv, far) # rest)"
        using xb w fs by (simp add: w'_def far_def)
      then have "inorder (erase_fixup x ((s, pc, pv, w) # rest))
          = before rest @ inorder (node_on s black sub wv far) @ after rest"
        by (simp add: inorder_plug)
      also have "inorder (node_on s black sub wv far) = inorder (node_on s pc x pv w)"
        using sub w by (cases s) (simp_all add: w'_def far_def)
      finally show ?thesis by (simp add: inorder_plug)
    next
      case wb: False
      obtain sub go_on where fs: "fix_sibling s x pc pv w = (sub, go_on)"
        by (cases "fix_sibling s x pc pv w")
      have sub: "inorder sub = inorder (node_on s pc x pv w)"
        using inorder_fix_sibling[of s x pc pv w] fs by simp
      have unf: "erase_fixup x ((s, pc, pv, w) # rest)
          = (if go_on then erase_fixup sub rest else plug sub rest)"
      proof (cases w)
        case Null
        then show ?thesis using xb fs by simp
      next
        case (Node wc wl wv wr)
        then have "wc = black" using wb by (cases wc) auto
        then show ?thesis using xb fs Node by simp
      qed
      have ih: "go_on \<Longrightarrow> inorder (erase_fixup sub rest) = inorder (plug sub rest)"
      proof -
        assume g: go_on
        show ?thesis
        proof (cases w)
          case Null
          then show ?thesis using "2.IH"(1)[OF xb Null] fs g by simp
        next
          case (Node wc wl wv wr)
          then have "wc = black" using wb by (cases wc) auto
          then show ?thesis using "2.IH"(2) xb Node fs g by simp
        qed
      qed
      show ?thesis using unf ih sub by (cases s) (auto simp: inorder_plug)
    qed
  qed
qed

lemma plug_append: "plug t (q @ p) = plug (plug t q) p"
proof (induction q arbitrary: t)
  case Nil
  then show ?case by simp
next
  case (Cons f q)
  obtain s c v other where f: "f = (s, c, v, other)" by (cases f)
  show ?case using Cons f by simp
qed

lemma leftmost_place_keeps:
  "leftmost_place t p = (q, y) \<Longrightarrow>
     before q @ inorder y @ after q = before p @ inorder t @ after p
     \<and> before q = before p
     \<and> (\<forall>yc yl yv yr. y = Node yc yl yv yr \<longrightarrow> yl = Null)
     \<and> (t \<noteq> Null \<longrightarrow> y \<noteq> Null)"
proof (induction t p arbitrary: q y rule: leftmost_place.induct)
  case (1 p)
  then show ?case by auto
next
  case (2 c v r p)
  then show ?case by auto
next
  case (3 c lc ll lv lr v r p)
  from "3.IH"[OF "3.prems"[simplified]] show ?case by auto
qed

lemma inorder_after_extract:
  "inorder (after_extract removed x p) = before p @ inorder x @ after p"
  by (simp add: after_extract_def inorder_erase_fixup inorder_plug)

lemma inorder_rebalance_for_extract:
  "inorder (rebalance_for_extract (p, Node zc zl zv zr))
     = before p @ inorder zl @ inorder zr @ after p"
proof (cases zl)
  case Null
  then show ?thesis by (simp add: inorder_after_extract)
next
  case l: (Node lc ll lv lr)
  show ?thesis
  proof (cases zr)
    case Null
    then show ?thesis using l by (simp add: inorder_after_extract)
  next
    case r: (Node rc rl rv rr)
    obtain q y where lp: "leftmost_place zr [] = (q, y)"
      by (cases "leftmost_place zr []")
    from leftmost_place_keeps[OF lp]
    have k: "before q @ inorder y @ after q = inorder zr" and b: "before q = []"
        and yl: "\<forall>yc yl yv yr. y = Node yc yl yv yr \<longrightarrow> yl = Null"
      by auto
    show ?thesis
    proof (cases y)
      case Null
      then show ?thesis using leftmost_place_keeps[OF lp] r by simp
    next
      case (Node yc yl yv yr)
      then have "yl = Null" using yl by simp
      then have zr: "inorder zr = yv # inorder yr @ after q" using k b Node by simp
      have "rebalance_for_extract (p, Node zc zl zv zr)
          = after_extract yc yr (q @ (to_right, zc, yv, zl) # p)"
        using l r lp Node by simp
      then show ?thesis
        using zr b by (simp add: inorder_after_extract before_append after_append)
    qed
  qed
qed

lemma gap_place_keeps:
  "before (gap_place i t p) @ after (gap_place i t p) = before p @ inorder t @ after p"
  by (induction t arbitrary: i p) simp_all

lemma set_index_erase:
  "set (inorder (index_erase (p, Node c l v r))) \<subseteq> set (inorder (plug (Node c l v r) p))"
  by (auto simp: index_erase_def inorder_rebalance_for_extract inorder_plug)

lemma set_index_replace:
  "set (inorder (index_replace v (p, n))) \<subseteq> insert v (set (inorder (plug n p)))"
proof (cases n)
  case Null
  then show ?thesis by auto
next
  case (Node c l old r)
  define t1 where "t1 = rebalance_for_extract (p, Node c l old r)"
  have t1: "inorder t1 = before p @ inorder l @ inorder r @ after p"
    by (simp add: t1_def inorder_rebalance_for_extract)
  show ?thesis
  proof (cases "in_place v (p, Node c l old r)")
    case True
    then show ?thesis using Node by (auto simp: inorder_plug)
  next
    case nip: False
    show ?thesis
    proof (cases "link_point v t1")
      case None
      have "index_replace v (p, n)
          = link old (gap_place (length (before p @ inorder l)) t1 [])"
        using Node nip None by (simp add: t1_def Let_def)
      moreover have "set (before (gap_place (length (before p @ inorder l)) t1 []))
          \<union> set (after (gap_place (length (before p @ inorder l)) t1 [])) = set (inorder t1)"
        using gap_place_keeps[of "length (before p @ inorder l)" t1 "[]"]
        by (metis append_Nil append_Nil2 before.simps(1) after.simps(1) set_append)
      ultimately show ?thesis using t1 Node by (auto simp: inorder_link inorder_plug)
    next
      case (Some q)
      have "index_replace v (p, n) = link v q"
        using Node nip Some by (simp add: t1_def Let_def)
      moreover have "set (before q) \<union> set (after q) = set (inorder t1)"
        using link_point_Some[OF Some] by (metis set_append)
      ultimately show ?thesis using t1 Node by (auto simp: inorder_link inorder_plug)
    qed
  qed
qed

section \<open>Properties of the monitored duration store\<close>

lemma addSample_shape:
  "\<exists>c p. fst (snd (MonitoredDuration_addSample m s now h))
     = m\<lparr>current_interval := c, previous_interval := p\<rparr>"
proof (cases "current_interval m")
  case None
  then have "fst (snd (MonitoredDuration_addSample m s now h))
      = m\<lparr>current_interval := Some (length h), previous_interval := previous_interval m\<rparr>"
    by (simp add: addSample_no_current)
  then show ?thesis by blast
next
  case (Some c)
  show ?thesis
  proof (cases "dur_less (interval_duration m) (ts_diff now (start_time (h ! c)))")
    case True
    then have "fst (snd (MonitoredDuration_addSample m s now h))
        = m\<lparr>current_interval := Some (length h), previous_interval := Some c\<rparr>"
      using Some by (simp add: addSample_rotate)
    then show ?thesis by blast
  next
    case False
    then have "fst (snd (MonitoredDuration_addSample m s now h))
        = m\<lparr>current_interval := current_interval m, previous_interval := previous_interval m\<rparr>"
      using Some by (simp add: addSample_same_interval)
    then show ?thesis by blast
  qed
qed

lemma DurationKey_eq_update [simp]:
  "DurationKey_eq d (m\<lparr>current_interval := c, previous_interval := p\<rparr>) = DurationKey_eq d m"
  "DurationKey_eq (m\<lparr>current_interval := c, previous_interval := p\<rparr>) k = DurationKey_eq m k"
  by (simp_all add: DurationKey_eq_def)

lemma DurationKey_eq_sym: "DurationKey_eq a b = DurationKey_eq b a"
  by (auto simp: DurationKey_eq_def)

lemma DurationKey_eq_trans:
  "DurationKey_eq a b \<Longrightarrow> DurationKey_eq b c \<Longrightarrow> DurationKey_eq a c"
  by (simp add: DurationKey_eq_def)

lemma of_key_Inr:
  "MonitoredDuration_of_key k iv = Inr m \<Longrightarrow>
     DurationKey_eq m k \<and> interval_duration m = iv
     \<and> current_interval m = None \<and> previous_interval m = None"
  by (auto simp: MonitoredDuration_of_key_def DurationKey_eq_def split: if_splits)

lemma of_key_ok:
  "dur_less ZERO_DURATION iv \<Longrightarrow> \<exists>m. MonitoredDuration_of_key k iv = Inr m"
  by (simp add: MonitoredDuration_of_key_def dur_le_def)

text \<open>What a call of addDuration can return, and the store and heap after it.\<close>

lemma addDuration_cases:
  "MonitoredDurationStore_addDuration key sample now st h = (Inl BadValue, st, h)
   \<or> MonitoredDurationStore_addDuration key sample now st h = (Inl DuplicateDurationKey, st, h)
   \<or> (\<exists>k mond h' t' xs ys. key = Some k \<and> family k = store_family st
        \<and> DurationKey_eq mond k
        \<and> interval_duration mond = store_interval_duration st
        \<and> index_insert mond (durations st) = (t', True)
        \<and> inorder (durations st) = xs @ ys
        \<and> inorder t' = xs @ mond # ys
        \<and> MonitoredDurationStore_addDuration key sample now st h =
            (Inr (MonitoredDuration_copy mond), st\<lparr>durations := t'\<rparr>, h'))"
proof (cases key)
  case None
  then show ?thesis by (simp add: MonitoredDurationStore_addDuration_def)
next
  case (Some k)
  show ?thesis
  proof (cases "family k \<noteq> store_family st")
    case True
    then show ?thesis using Some by (simp add: MonitoredDurationStore_addDuration_def)
  next
    case fam: False
    show ?thesis
    proof (cases "MonitoredDuration_of_key k (store_interval_duration st)")
      case (Inl e)
      then show ?thesis using Some fam by (simp add: MonitoredDurationStore_addDuration_def)
    next
      case (Inr mond0)
      note m0 = of_key_Inr[OF Inr]
      define res where "res = (if dur_less ZERO_DURATION sample
                         then snd (MonitoredDuration_addSample mond0 sample now h)
                         else (mond0, h))"
      obtain c p where shape: "fst res = mond0\<lparr>current_interval := c, previous_interval := p\<rparr>"
      proof (cases "dur_less ZERO_DURATION sample")
        case True
        then show ?thesis using addSample_shape[of mond0 sample now h] that
          by (auto simp: res_def)
      next
        case False
        then have "fst res = mond0\<lparr>current_interval := current_interval mond0,
            previous_interval := previous_interval mond0\<rparr>"
          by (simp add: res_def)
        then show ?thesis using that by blast
      qed
      have eqk: "DurationKey_eq (fst res) k" using shape m0 by simp
      have iv: "interval_duration (fst res) = store_interval_duration st"
        using shape m0 by simp
      have unf: "MonitoredDurationStore_addDuration key sample now st h =
          (if snd (index_insert (fst res) (durations st)) = False
           then (Inl DuplicateDurationKey, st, h)
           else (Inr (MonitoredDuration_copy (fst res)),
                 st\<lparr>durations := fst (index_insert (fst res) (durations st))\<rparr>, snd res))"
        using Some fam Inr
        by (simp add: MonitoredDurationStore_addDuration_def res_def split_beta Let_def)
      from index_insert_cases[of "fst res" "durations st"] show ?thesis
      proof
        assume "index_insert (fst res) (durations st) = (durations st, False)"
        then show ?thesis using unf by simp
      next
        assume "\<exists>xs ys t'. index_insert (fst res) (durations st) = (t', True)
            \<and> inorder (durations st) = xs @ ys \<and> inorder t' = xs @ fst res # ys"
        then obtain xs ys t' where i: "index_insert (fst res) (durations st) = (t', True)"
            "inorder (durations st) = xs @ ys" "inorder t' = xs @ fst res # ys"
          by blast
        then have "MonitoredDurationStore_addDuration key sample now st h =
            (Inr (MonitoredDuration_copy (fst res)), st\<lparr>durations := t'\<rparr>, snd res)"
          using unf by simp
        then show ?thesis using i eqk iv Some fam by blast
      qed
    qed
  qed
qed

text \<open>
  What holds of \<open>addDuration\<close> on every store: a null key and a key of another family
  raise \<open>BadValue\<close>; whatever exception is raised, the store and the heap are those
  before the call; and when a record is returned, exactly one record was inserted, with
  the given key, and the record returned is its copy.
\<close>

lemma addDuration_errors_and_success:
  "MonitoredDurationStore_addDuration None sample now st h = (Inl BadValue, st, h)
   \<and> (family k \<noteq> store_family st \<longrightarrow>
        MonitoredDurationStore_addDuration (Some k) sample now st h = (Inl BadValue, st, h))
   \<and> (\<forall>e. fst (MonitoredDurationStore_addDuration key sample now st h) = Inl e \<longrightarrow>
        MonitoredDurationStore_addDuration key sample now st h = (Inl e, st, h))
   \<and> (\<forall>m. fst (MonitoredDurationStore_addDuration key sample now st h) = Inr m \<longrightarrow>
        (\<exists>k' mond st' h' xs ys.
           MonitoredDurationStore_addDuration key sample now st h
             = (Inr (MonitoredDuration_copy mond), st', h')
           \<and> key = Some k' \<and> DurationKey_eq mond k'
           \<and> interval_duration mond = store_interval_duration st
           \<and> inorder (durations st) = xs @ ys
           \<and> inorder (durations st') = xs @ mond # ys
           \<and> record_contents h' (MonitoredDuration_copy mond) = record_contents h' mond))"
proof (intro conjI impI allI)
  show "MonitoredDurationStore_addDuration None sample now st h = (Inl BadValue, st, h)"
    by (simp add: MonitoredDurationStore_addDuration_def)
next
  assume "family k \<noteq> store_family st"
  then show "MonitoredDurationStore_addDuration (Some k) sample now st h
      = (Inl BadValue, st, h)"
    by (simp add: MonitoredDurationStore_addDuration_def)
next
  fix e
  assume "fst (MonitoredDurationStore_addDuration key sample now st h) = Inl e"
  then show "MonitoredDurationStore_addDuration key sample now st h = (Inl e, st, h)"
    using addDuration_cases[of key sample now st h] by auto
next
  fix m
  assume a: "fst (MonitoredDurationStore_addDuration key sample now st h) = Inr m"
  with addDuration_cases[of key sample now st h]
  obtain k' mond h' t' xs ys where r: "key = Some k'" "DurationKey_eq mond k'"
      "interval_duration mond = store_interval_duration st"
      "inorder (durations st) = xs @ ys" "inorder t' = xs @ mond # ys"
      "MonitoredDurationStore_addDuration key sample now st h =
            (Inr (MonitoredDuration_copy mond), st\<lparr>durations := t'\<rparr>, h')"
    by auto
  have c: "MonitoredDuration_copy mond = mond"
    by (simp add: MonitoredDuration_copy_def)
  show "\<exists>k' mond st' h' xs ys.
           MonitoredDurationStore_addDuration key sample now st h
             = (Inr (MonitoredDuration_copy mond), st', h')
           \<and> key = Some k' \<and> DurationKey_eq mond k'
           \<and> interval_duration mond = store_interval_duration st
           \<and> inorder (durations st) = xs @ ys
           \<and> inorder (durations st') = xs @ mond # ys
           \<and> record_contents h' (MonitoredDuration_copy mond) = record_contents h' mond"
    using r c
    by (intro exI[of _ k'] exI[of _ mond] exI[of _ "st\<lparr>durations := t'\<rparr>"] exI[of _ h']
        exI[of _ xs] exI[of _ ys]) simp
qed

lemmas store_defs =
  MonitoredDurationStore_addDuration_def MonitoredDurationStore_getDuration_def
  MonitoredDurationStore_getAll_def MonitoredDuration_of_key_def
  MonitoredDuration_copy_def MonitoredDuration_addSample_def
  index_insert_def index_find_def link_point_def link_def
  DurationKey_less_def heap_new_def heap_modify_def DurationDataInterval_new_def
  DurationDataInterval_addDuration_def ts_diff_def dur_le_def ZERO_DURATION_def

text \<open>
  C3. The claim is that a record returned by \<open>getDuration\<close> or \<open>getAll\<close> is a snapshot:
  changing it, for example with \<open>addSample\<close>, leaves the record in the store unchanged.
  The copy is made member by member, so it points to the same intervals as the
  stored record. After \<open>addDuration\<close> of a key with a first sample, the record got from
  \<open>getDuration\<close> (or \<open>getAll\<close>) receives a second sample within the interval: the
  contents of the record in the store change from one occurrence to two, although no
  operation of the store was called.
\<close>

theorem retrieved_copy_shares_intervals:
  "MonitoredDurationStore_addDuration (Some key_discover_none) (Ticks 300) 100000
        store_v4 []
       = (Inr (duration_1s\<lparr>current_interval := Some 0\<rparr>), store_v4_one, heap_one)
   \<and> MonitoredDurationStore_getDuration (Some key_discover_none) store_v4_one
       = Inr (Some (duration_1s\<lparr>current_interval := Some 0\<rparr>))
   \<and> MonitoredDurationStore_getAll store_v4_one
       = [duration_1s\<lparr>current_interval := Some 0\<rparr>]
   \<and> MonitoredDuration_addSample (duration_1s\<lparr>current_interval := Some 0\<rparr>)
        (Ticks 500) 500000 heap_one
       = (False, duration_1s\<lparr>current_interval := Some 0\<rparr>, heap_two)
   \<and> store_contents heap_one store_v4_one
       = [(key_discover_none, Ticks 1000000,
           Some \<lparr> start_time = 100000, occurrences = 1, min_duration = Ticks 300,
                  max_duration = Ticks 300, total_duration = Ticks 300 \<rparr>, None)]
   \<and> store_contents heap_two store_v4_one
       = [(key_discover_none, Ticks 1000000,
           Some \<lparr> start_time = 100000, occurrences = 2, min_duration = Ticks 300,
                  max_duration = Ticks 500, total_duration = Ticks 800 \<rparr>, None)]
   \<and> store_contents heap_two store_v4_one \<noteq> store_contents heap_one store_v4_one"
  by (simp add: key_discover_none_def duration_1s_def store_v4_def store_v4_one_def
      heap_one_def heap_two_def store_defs msg_type_defs store_contents_def
      record_contents_def deref_def DurationKey.truncate_def)

section \<open>Validated keys in every object\<close>

lemma key_validated_update [simp]:
  "key_validated (m\<lparr>current_interval := c, previous_interval := p\<rparr>) = key_validated m"
  by (simp add: key_validated_def)

lemma key_validated_eq:
  "DurationKey_eq a b \<Longrightarrow> key_validated a = key_validated b"
  by (simp add: key_validated_def DurationKey_eq_def)

lemma key_validated_copy [simp]:
  "key_validated (MonitoredDuration_copy m) = key_validated m"
  by (simp add: key_validated_def MonitoredDuration_copy_def)

lemma key_validated_addSample:
  "key_validated (fst (snd (MonitoredDuration_addSample m s now h))) = key_validated m"
proof -
  obtain c p where "fst (snd (MonitoredDuration_addSample m s now h))
      = m\<lparr>current_interval := c, previous_interval := p\<rparr>"
    using addSample_shape by blast
  then show ?thesis by simp
qed

lemma key_validated_clear:
  "key_validated (MonitoredDuration_clear m) = key_validated m"
  by (simp add: MonitoredDuration_clear_def key_validated_def)

lemma key_validated_of_key:
  "MonitoredDuration_of_key k iv = Inr m \<Longrightarrow> key_validated m = key_validated k"
  using of_key_Inr key_validated_eq by blast

lemma MonitoredDuration_new_validated:
  "case MonitoredDuration_new fam qt rt sl el sid iv of
     Inr m \<Rightarrow> key_validated m \<and> (fam, qt, rt) \<in> set validated_combinations
   | Inl e \<Rightarrow> e = BadValue"
proof (cases "DurationKey_new fam qt rt sl el sid")
  case (Inl e)
  then show ?thesis
    using DurationKey_new_Inl[OF Inl] by (simp add: MonitoredDuration_new_def)
next
  case (Inr k)
  then have v: "(fam, qt, rt) \<in> set validated_combinations" and kv: "key_validated k"
    by (simp_all add: DurationKey_new_Inr key_validated_def)
  show ?thesis
  proof (cases "MonitoredDuration_of_key k iv")
    case (Inl e)
    then have "e = BadValue"
      by (auto simp: MonitoredDuration_of_key_def split: if_splits)
    then show ?thesis using Inr Inl by (simp add: MonitoredDuration_new_def)
  next
    case r: (Inr m)
    then show ?thesis using Inr v kv key_validated_of_key[OF r]
      by (simp add: MonitoredDuration_new_def)
  qed
qed

lemma addDuration_keeps_validated:
  assumes "list_all key_validated (inorder (durations st))"
    and "\<forall>k. key = Some k \<longrightarrow> key_validated k"
  shows "list_all key_validated
           (inorder (durations (fst (snd (MonitoredDurationStore_addDuration key sample now st h)))))"
  using addDuration_cases[of key sample now st h] assms
  by (auto simp: key_validated_eq)

lemma updateDuration_keeps_validated:
  assumes "list_all key_validated (inorder (durations st))"
    and "\<forall>d. duration = Some d \<longrightarrow> key_validated d"
  shows "list_all key_validated
           (inorder (durations (snd (MonitoredDurationStore_updateDuration duration st))))"
proof (cases duration)
  case None
  then show ?thesis using assms by (simp add: MonitoredDurationStore_updateDuration_def)
next
  case (Some d)
  show ?thesis
  proof (cases "index_find d (durations st)")
    case None
    then show ?thesis using assms Some
      by (simp add: MonitoredDurationStore_updateDuration_def)
  next
    case found: (Some pos)
    from index_find_place[OF found] obtain p c l v r
      where pos: "pos = (p, Node c l v r)" and t: "plug (Node c l v r) p = durations st"
      by blast
    have "set (inorder (index_replace (MonitoredDuration_copy d) pos))
        \<subseteq> insert (MonitoredDuration_copy d) (set (inorder (durations st)))"
      using set_index_replace[of "MonitoredDuration_copy d" p "Node c l v r"] pos t by simp
    moreover have "key_validated (MonitoredDuration_copy d)" using assms(2) Some by simp
    ultimately have "list_all key_validated
        (inorder (index_replace (MonitoredDuration_copy d) pos))"
      using assms(1) by (auto simp: list_all_iff)
    then show ?thesis using Some found
      by (simp add: MonitoredDurationStore_updateDuration_def)
  qed
qed

lemma deleteDuration_keeps_validated:
  assumes "list_all key_validated (inorder (durations st))"
  shows "list_all key_validated
           (inorder (durations (snd (MonitoredDurationStore_deleteDuration key st))))"
proof (cases key)
  case None
  then show ?thesis using assms by (simp add: MonitoredDurationStore_deleteDuration_def)
next
  case (Some k)
  show ?thesis
  proof (cases "index_find k (durations st)")
    case None
    then show ?thesis using assms Some
      by (simp add: MonitoredDurationStore_deleteDuration_def)
  next
    case found: (Some pos)
    from index_find_place[OF found] obtain p c l v r
      where pos: "pos = (p, Node c l v r)" and t: "plug (Node c l v r) p = durations st"
      by blast
    have "set (inorder (index_erase pos)) \<subseteq> set (inorder (durations st))"
      using set_index_erase[of p c l v r] pos t by simp
    then have "list_all key_validated (inorder (index_erase pos))"
      using assms by (auto simp: list_all_iff)
    then show ?thesis using Some found
      by (simp add: MonitoredDurationStore_deleteDuration_def)
  qed
qed

lemma getDuration_validated:
  assumes "list_all key_validated (inorder (durations st))"
    and "MonitoredDurationStore_getDuration key st = Inr (Some d)"
  shows "key_validated d"
proof -
  from assms(2) obtain k :: DurationKey and pos x
    where found: "index_find k (durations st) = Some pos"
      and x: "place_value pos = Some x" and d: "d = MonitoredDuration_copy x"
    by (auto simp: MonitoredDurationStore_getDuration_def split: option.splits)
  from index_find_place[OF found] obtain p c l v r
    where pos: "pos = (p, Node c l v r)" and t: "plug (Node c l v r) p = durations st"
    by blast
  have "x \<in> set (inorder (durations st))"
    using place_in_tree[OF t] x pos by simp
  then show ?thesis using assms(1) d by (simp add: list_all_iff)
qed

lemma getAll_validated:
  "list_all key_validated (inorder (durations st)) \<Longrightarrow>
   list_all key_validated (MonitoredDurationStore_getAll st)"
  by (simp add: MonitoredDurationStore_getAll_def list_all_iff)

lemma store_new_validated:
  "MonitoredDurationStore_new fam iv = Inr s0 \<Longrightarrow> list_all key_validated (inorder (durations s0))"
  by (auto simp: MonitoredDurationStore_new_def split: if_splits)

text \<open>
  C9. A \<open>DurationKey\<close> is constructed exactly for the validated combinations of family,
  query type and response type: then the family is \<open>AF_INET\<close> or \<open>AF_INET6\<close> and the
  key holds the given values; for any other combination the constructor raises
  \<open>BadValue\<close> and there is no key. A \<open>MonitoredDuration\<close> is constructed only with a
  validated key, and keeps its key under \<open>addSample\<close> and \<open>clear\<close>. A new store is
  empty, and the operations of the store, given keys and durations that were
  constructed, keep every record of the store, and every record retrieved from it, on a
  validated key.
\<close>

theorem constructed_keys_validated:
  "(case DurationKey_new fam qt rt sl el sid of
      Inr k \<Rightarrow>
        k = \<lparr> family = fam, query_type = qt, response_type = rt,
              start_event_label = sl, end_event_label = el, subnet_id = sid \<rparr>
        \<and> (family k = AF_INET \<or> family k = AF_INET6)
        \<and> (family k, query_type k, response_type k) \<in> set validated_combinations
    | Inl e \<Rightarrow> e = BadValue \<and> (fam, qt, rt) \<notin> set validated_combinations)
   \<and> (case MonitoredDuration_new fam qt rt sl el sid iv of
         Inr m \<Rightarrow> key_validated m
       | Inl e \<Rightarrow> e = BadValue)
   \<and> (\<forall>m. key_validated k \<and> MonitoredDuration_of_key k iv = Inr m \<longrightarrow> key_validated m)
   \<and> (key_validated md \<longrightarrow>
         key_validated (fst (snd (MonitoredDuration_addSample md s now h)))
         \<and> key_validated (MonitoredDuration_clear md))
   \<and> (\<forall>s0. MonitoredDurationStore_new fam iv = Inr s0 \<longrightarrow>
         list_all key_validated (inorder (durations s0)))
   \<and> (list_all key_validated (inorder (durations st)) \<and> (\<forall>k'. key = Some k' \<longrightarrow> key_validated k') \<longrightarrow>
         list_all key_validated
           (inorder (durations (fst (snd (MonitoredDurationStore_addDuration key sample now st h)))))
         \<and> list_all key_validated
             (inorder (durations (snd (MonitoredDurationStore_deleteDuration key st))))
         \<and> (\<forall>d. MonitoredDurationStore_getDuration key st = Inr (Some d) \<longrightarrow> key_validated d)
         \<and> list_all key_validated (MonitoredDurationStore_getAll st))
   \<and> (list_all key_validated (inorder (durations st)) \<and> (\<forall>d. duration = Some d \<longrightarrow> key_validated d) \<longrightarrow>
         list_all key_validated
           (inorder (durations (snd (MonitoredDurationStore_updateDuration duration st)))))"
proof (intro conjI)
  show "case DurationKey_new fam qt rt sl el sid of
      Inr k \<Rightarrow>
        k = \<lparr> family = fam, query_type = qt, response_type = rt,
              start_event_label = sl, end_event_label = el, subnet_id = sid \<rparr>
        \<and> (family k = AF_INET \<or> family k = AF_INET6)
        \<and> (family k, query_type k, response_type k) \<in> set validated_combinations
    | Inl e \<Rightarrow> e = BadValue \<and> (fam, qt, rt) \<notin> set validated_combinations"
  proof (cases "DurationKey_new fam qt rt sl el sid")
    case (Inl e)
    have "(fam, qt, rt) \<notin> set validated_combinations"
      using Inl DurationKey_new_Inr[of fam qt rt sl el sid] by auto
    then show ?thesis using Inl DurationKey_new_Inl[OF Inl] by simp
  next
    case (Inr k)
    then have "(fam, qt, rt) \<in> set validated_combinations"
        and "k = \<lparr> family = fam, query_type = qt, response_type = rt,
              start_event_label = sl, end_event_label = el, subnet_id = sid \<rparr>"
      by (simp_all add: DurationKey_new_Inr)
    then show ?thesis using Inr validated_family[of fam qt rt] by simp
  qed
next
  show "case MonitoredDuration_new fam qt rt sl el sid iv of
         Inr m \<Rightarrow> key_validated m
       | Inl e \<Rightarrow> e = BadValue"
    using MonitoredDuration_new_validated[of fam qt rt sl el sid iv]
    by (simp split: sum.splits)
next
  show "\<forall>m. key_validated k \<and> MonitoredDuration_of_key k iv = Inr m \<longrightarrow> key_validated m"
    using key_validated_of_key by blast
next
  show "key_validated md \<longrightarrow>
         key_validated (fst (snd (MonitoredDuration_addSample md s now h)))
         \<and> key_validated (MonitoredDuration_clear md)"
    by (simp add: key_validated_addSample key_validated_clear)
next
  show "\<forall>s0. MonitoredDurationStore_new fam iv = Inr s0 \<longrightarrow>
         list_all key_validated (inorder (durations s0))"
    using store_new_validated by blast
next
  show "list_all key_validated (inorder (durations st)) \<and> (\<forall>k'. key = Some k' \<longrightarrow> key_validated k') \<longrightarrow>
         list_all key_validated
           (inorder (durations (fst (snd (MonitoredDurationStore_addDuration key sample now st h)))))
         \<and> list_all key_validated
             (inorder (durations (snd (MonitoredDurationStore_deleteDuration key st))))
         \<and> (\<forall>d. MonitoredDurationStore_getDuration key st = Inr (Some d) \<longrightarrow> key_validated d)
         \<and> list_all key_validated (MonitoredDurationStore_getAll st)"
    using addDuration_keeps_validated[of st key sample now h]
      deleteDuration_keeps_validated[of st key]
      getDuration_validated[of st key] getAll_validated[of st]
    by blast
next
  show "list_all key_validated (inorder (durations st)) \<and> (\<forall>d. duration = Some d \<longrightarrow> key_validated d) \<longrightarrow>
         list_all key_validated
           (inorder (durations (snd (MonitoredDurationStore_updateDuration duration st))))"
    using updateDuration_keeps_validated[of st duration] by blast
qed

theorem constructed_keys_validated_witness:
  "DurationKey_new AF_INET DHCPDISCOVER DHCP_NOTYPE ''socket_received'' ''buffer_read'' 1
     = Inr key_discover_none
   \<and> DurationKey_new AF_INET DHCPDISCOVER DHCPACK ''socket_received'' ''buffer_read'' 1
     = Inl BadValue
   \<and> DurationKey_new 7 DHCPDISCOVER DHCPOFFER ''socket_received'' ''buffer_read'' 1
     = Inl BadValue
   \<and> key_validated key_discover_none
   \<and> MonitoredDuration_of_key key_discover_none (Ticks 1000000) = Inr duration_1s
   \<and> key_validated duration_1s
   \<and> key_validated (fst (snd (MonitoredDuration_addSample duration_1s (Ticks 300) 600000
         heap_one)))
   \<and> key_validated (MonitoredDuration_clear duration_1s)
   \<and> MonitoredDurationStore_new AF_INET (Ticks 1000000) = Inr store_v4
   \<and> list_all key_validated (inorder (durations store_v4))
   \<and> list_all key_validated (inorder (durations store_v4_one))
   \<and> key_validated key_none_offer
   \<and> list_all key_validated
       (inorder (durations (fst (snd (MonitoredDurationStore_addDuration (Some key_none_offer)
          (Ticks 300) 600000 store_v4_one heap_one)))))
   \<and> list_all key_validated
       (inorder (durations (snd (MonitoredDurationStore_deleteDuration (Some key_discover_none)
          store_v4_one))))
   \<and> MonitoredDurationStore_getDuration (Some key_discover_none) store_v4_one
       = Inr (Some (duration_1s\<lparr>current_interval := Some 0\<rparr>))
   \<and> key_validated (duration_1s\<lparr>current_interval := Some 0\<rparr>)
   \<and> list_all key_validated (MonitoredDurationStore_getAll store_v4_one)
   \<and> list_all key_validated
       (inorder (durations (snd (MonitoredDurationStore_updateDuration (Some duration_1s)
          store_v4_one))))"
proof -
  note T = constructed_keys_validated
      [where fam = AF_INET and qt = DHCPDISCOVER and rt = DHCP_NOTYPE
         and sl = "''socket_received''" and el = "''buffer_read''" and sid = 1
         and iv = "Ticks 1000000" and k = key_discover_none and md = duration_1s
         and s = "Ticks 300" and now = 600000 and h = heap_one
         and st = store_v4_one and key = "Some key_none_offer" and sample = "Ticks 300"
         and duration = "Some duration_1s"]
  note T_get = constructed_keys_validated
      [where st = store_v4_one and key = "Some key_discover_none",
       THEN conjunct2, THEN conjunct2, THEN conjunct2, THEN conjunct2, THEN conjunct2,
       THEN conjunct1]
  note T_ack = constructed_keys_validated
      [where fam = AF_INET and qt = DHCPDISCOVER and rt = DHCPACK
         and sl = "''socket_received''" and el = "''buffer_read''" and sid = 1,
       THEN conjunct1]
  note T_fam = constructed_keys_validated
      [where fam = 7 and qt = DHCPDISCOVER and rt = DHCPOFFER
         and sl = "''socket_received''" and el = "''buffer_read''" and sid = 1,
       THEN conjunct1]
  have new1: "DurationKey_new AF_INET DHCPDISCOVER DHCP_NOTYPE ''socket_received''
      ''buffer_read'' 1 = Inr key_discover_none"
    by (simp add: DurationKey_new_def validateMessagePair_def key_discover_none_def
        msg_type_defs)
  have "(AF_INET, DHCPDISCOVER, DHCPACK) \<notin> set validated_combinations"
    by (simp add: validated_combinations_def msg_type_defs)
  with T_ack have new2: "DurationKey_new AF_INET DHCPDISCOVER DHCPACK ''socket_received''
      ''buffer_read'' 1 = Inl BadValue"
    by (auto split: sum.splits)
  have "(7, DHCPDISCOVER, DHCPOFFER) \<notin> set validated_combinations"
    by (simp add: validated_combinations_def msg_type_defs)
  with T_fam have new3: "DurationKey_new 7 DHCPDISCOVER DHCPOFFER ''socket_received''
      ''buffer_read'' 1 = Inl BadValue"
    by (auto split: sum.splits)
  from T[THEN conjunct1] new1 have kv: "key_validated key_discover_none"
    by (simp add: key_validated_def)
  have ofk: "MonitoredDuration_of_key key_discover_none (Ticks 1000000) = Inr duration_1s"
    by (simp add: MonitoredDuration_of_key_def key_discover_none_def duration_1s_def
        dur_le_def ZERO_DURATION_def)
  from T[THEN conjunct2, THEN conjunct2, THEN conjunct1] kv ofk
  have dv: "key_validated duration_1s" by blast
  from T[THEN conjunct2, THEN conjunct2, THEN conjunct2, THEN conjunct1] dv
  have smp: "key_validated (fst (snd (MonitoredDuration_addSample duration_1s (Ticks 300)
      600000 heap_one)))"
    and clr: "key_validated (MonitoredDuration_clear duration_1s)"
    by blast+
  have st0: "MonitoredDurationStore_new AF_INET (Ticks 1000000) = Inr store_v4"
    by (simp add: MonitoredDurationStore_new_def store_v4_def dur_le_def ZERO_DURATION_def)
  from T[THEN conjunct2, THEN conjunct2, THEN conjunct2, THEN conjunct2, THEN conjunct1] st0
  have inv0: "list_all key_validated (inorder (durations store_v4))" by blast
  have dv1: "key_validated (duration_1s\<lparr>current_interval := Some 0\<rparr>)"
    using dv by (simp add: key_validated_def)
  then have inv: "list_all key_validated (inorder (durations store_v4_one))"
    by (simp add: store_v4_one_def)
  have ko: "key_validated key_none_offer"
    by (simp add: key_validated_def key_none_offer_def validated_combinations_def
        msg_type_defs)
  then have ko': "\<forall>k'. Some key_none_offer = Some k' \<longrightarrow> key_validated k'" by simp
  have kv': "\<forall>k'. Some key_discover_none = Some k' \<longrightarrow> key_validated k'" using kv by simp
  have dv': "\<forall>d. Some duration_1s = Some d \<longrightarrow> key_validated d" using dv by simp
  from T[THEN conjunct2, THEN conjunct2, THEN conjunct2, THEN conjunct2, THEN conjunct2,
      THEN conjunct1] inv ko'
  have add: "list_all key_validated
       (inorder (durations (fst (snd (MonitoredDurationStore_addDuration (Some key_none_offer)
          (Ticks 300) 600000 store_v4_one heap_one)))))"
    by blast
  have get: "MonitoredDurationStore_getDuration (Some key_discover_none) store_v4_one
       = Inr (Some (duration_1s\<lparr>current_interval := Some 0\<rparr>))"
    by (simp add: key_discover_none_def duration_1s_def store_v4_def store_v4_one_def
        store_defs)
  from T_get inv kv'
  have del: "list_all key_validated
       (inorder (durations (snd (MonitoredDurationStore_deleteDuration (Some key_discover_none)
          store_v4_one))))"
    and all: "list_all key_validated (MonitoredDurationStore_getAll store_v4_one)"
    and got: "\<forall>d. MonitoredDurationStore_getDuration (Some key_discover_none) store_v4_one
        = Inr (Some d) \<longrightarrow> key_validated d"
    by blast+
  from got get have dv2: "key_validated (duration_1s\<lparr>current_interval := Some 0\<rparr>)"
    by blast
  from T[THEN conjunct2, THEN conjunct2, THEN conjunct2, THEN conjunct2, THEN conjunct2,
      THEN conjunct2] inv dv'
  have upd: "list_all key_validated
       (inorder (durations (snd (MonitoredDurationStore_updateDuration (Some duration_1s)
          store_v4_one))))"
    by blast
  show ?thesis
    using new1 new2 new3 kv ofk dv smp clr st0 inv0 inv ko add del get dv2 all upd
    by (intro conjI)
qed

section \<open>Keys that the index of the store loses\<close>

text \<open>
  C10. The claim is that \<open>addDuration\<close> raises \<open>DuplicateDurationKey\<close> when a record with
  an equal key is in the store. The index decides with \<open>operator<\<close>, which is not a
  strict order. The three keys below, all accepted by the constructor, are added to a
  new store in the order \<open>key_none_none\<close>, \<open>key_none_offer\<close>, \<open>key_discover_none\<close>; the
  third insertion rotates the tree. The store then holds a record with the key
  \<open>key_none_offer\<close>, and adding \<open>key_none_offer\<close> once more does not raise: a second
  record with that key is inserted and returned.
\<close>

theorem addDuration_accepts_stored_key:
  "MonitoredDurationStore_new AF_INET (Ticks 1000000) = Inr store_v4
   \<and> add_keys [key_none_none, key_none_offer, key_discover_none] store_v4 []
       = ([Inr (new_record key_none_none), Inr (new_record key_none_offer),
           Inr (new_record key_discover_none)], store_v4_three, [])
   \<and> new_record key_none_offer \<in> set (inorder (durations store_v4_three))
   \<and> DurationKey_eq (new_record key_none_offer) key_none_offer
   \<and> MonitoredDurationStore_addDuration (Some key_none_offer) ZERO_DURATION 0
        store_v4_three []
       = (Inr (new_record key_none_offer), store_v4_four, [])
   \<and> inorder (durations store_v4_four)
       = [new_record key_none_none, new_record key_none_offer,
          new_record key_discover_none, new_record key_none_offer]"
  by (simp add: MonitoredDurationStore_new_def store_v4_def store_v4_three_def
      store_v4_four_def key_none_none_def key_none_offer_def key_discover_none_def
      new_record_def store_defs DurationKey_eq_def msg_type_defs)

text \<open>
  The same defect makes \<open>find\<close> miss a stored key: after \<open>key_none_offer\<close> was added to
  the store that holds \<open>key_discover_none\<close>, \<open>getDuration\<close> returns the null pointer for
  \<open>key_none_offer\<close>.
\<close>

lemma getDuration_misses_stored_key:
  "MonitoredDurationStore_addDuration (Some key_none_offer) ZERO_DURATION 0
        store_v4_one heap_one
       = (Inr (new_record key_none_offer), store_v4_two, heap_one)
   \<and> MonitoredDurationStore_getDuration (Some key_none_offer) store_v4_two = Inr None"
  by (simp add: store_v4_def store_v4_one_def store_v4_two_def duration_1s_def
      key_none_none_def key_none_offer_def key_discover_none_def
      new_record_def store_defs msg_type_defs)

section \<open>Changes of a copy that do not reach the store\<close>

text \<open>
  What a change of a copy leaves alone. A new interval is put at the end of the heap, so
  the contents of a store whose pointers are valid do not change when a copy opens a
  first interval or rotates; \<open>clear\<close> on a copy does not touch the heap at all. Only a
  sample added to the current interval of a copy reaches the store.
\<close>

lemma record_contents_append:
  "pointers_valid h d \<Longrightarrow> record_contents (h @ xs) d = record_contents h d"
  by (auto simp: pointers_valid_def record_contents_def deref_def nth_append
      split: option.splits)

lemma store_contents_append:
  "list_all (pointers_valid h) (inorder (durations st)) \<Longrightarrow>
   store_contents (h @ xs) st = store_contents h st"
  by (simp add: store_contents_def list_all_iff record_contents_append)

lemma copy_opening_or_rotating_keeps_store:
  assumes "list_all (pointers_valid h) (inorder (durations st))"
    and "current_interval m = None
         \<or> (\<exists>c. current_interval m = Some c
               \<and> dur_less (interval_duration m) (ts_diff now (start_time (h ! c))))"
  shows "store_contents (snd (snd (MonitoredDuration_addSample m s now h))) st
     = store_contents h st"
  using assms
  by (auto simp: addSample_no_current addSample_rotate store_contents_append)

end
